theory Spec2Isabelle
  imports Complex_Main
begin

section \<open>Values of the program\<close>

text \<open>
  The request body is what \<^verbatim>\<open>express.json()\<close> parsed, and a stored document is what
  the store hands back: a tree of JSON values. A number is its exact value, or one of the
  three non-finite values (\<^verbatim>\<open>JSON.parse("1e999")\<close> is \<^verbatim>\<open>Infinity\<close>). The sign of zero is
  not kept: \<^verbatim>\<open>-0\<close> and \<^verbatim>\<open>0\<close> agree under truthiness, \<^verbatim>\<open>===\<close>, \<^verbatim>\<open>String\<close>,
  \<^verbatim>\<open>JSON.stringify\<close> and \<^verbatim>\<open>Set\<close> membership. Strings are over code units below 256. An
  object is the list of its own properties in enumeration order.

  \<^verbatim>\<open>undefined\<close> never sits inside such a tree; it is what reading a missing property
  gives. So a value read from a property is a \<open>json option\<close>, with \<open>None\<close> for
  \<^verbatim>\<open>undefined\<close>.
\<close>

datatype jsnum = NaN | PosInf | NegInf | Fin rat

datatype json =
    Null
  | Bool bool
  | Num jsnum
  | Str string
  | Arr "json list"
  | Obj "(string \<times> json) list"

type_synonym jsval = "json option"

text \<open>
  Every \<^verbatim>\<open>throw new Error(...)\<close> of the source, by the name the specification gives
  it, with the part of the message that depends on the input; \<open>TypeError\<close> is what the
  runtime throws for a property read on \<^verbatim>\<open>null\<close> or \<^verbatim>\<open>undefined\<close> and for a call of
  what is not a function, \<open>BSONError\<close> what \<^verbatim>\<open>new ObjectId(...)\<close> throws for a malformed
  key, \<open>StorageFailure\<close> what the store's client throws, \<open>UpstreamFailure\<close> what the
  HTTP client throws.
  \<^item> \<open>EmptyInput\<close>: "Deals array cannot be empty."
  \<^item> \<open>InvalidDeal\<close>: "Each deal must have a non-null storeID and price."
  \<^item> \<open>NonNumericPrice v\<close>: "Price must be a numerical value. Invalid value: v"
  \<^item> \<open>DuplicateStoreID\<close>: "Duplicate storeID found."
  \<^item> \<open>NonNumericCheapestPrice v\<close>: "CheapestPrice must be a numerical value. Invalid value: v"
  \<^item> \<open>MissingRequiredAttributes names\<close>: "Missing or empty required attributes: " and the
    names joined by ", "
  \<^item> \<open>DuplicateGame\<close>: "A game with the same gameID or title already exists."
  \<^item> \<open>NoChange\<close>: "No changes detected. Provide at least one unique update."
  \<^item> \<open>NotFound\<close>: "Game not found."
  \<^item> \<open>NotFoundOrNoChange\<close>: "Game not found or no changes made."
\<close>

datatype error =
    EmptyInput
  | InvalidDeal
  | NonNumericPrice jsval
  | DuplicateStoreID
  | NonNumericCheapestPrice jsval
  | MissingRequiredAttributes "string list"
  | DuplicateGame
  | NoChange
  | NotFound
  | NotFoundOrNoChange
  | TypeError
  | BSONError
  | StorageFailure
  | UpstreamFailure

text \<open>
  \<^verbatim>\<open>x.name\<close> and \<^verbatim>\<open>x[name]\<close> for the property names the program reads (\<^verbatim>\<open>storeID\<close>,
  \<^verbatim>\<open>price\<close>, \<^verbatim>\<open>gameID\<close>, \<^verbatim>\<open>title\<close>, \<^verbatim>\<open>thumb\<close>, \<^verbatim>\<open>cheapestPrice\<close>, \<^verbatim>\<open>deals\<close>, \<^verbatim>\<open>info\<close>,
  \<^verbatim>\<open>cheapestPriceEver\<close>): an object gives its own property or \<^verbatim>\<open>undefined\<close>, a number,
  boolean, string or array has none of these names, and \<^verbatim>\<open>null\<close> throws.
\<close>

fun get_prop :: "json \<Rightarrow> string \<Rightarrow> error + jsval" where
  "get_prop Null k = Inl TypeError"
| "get_prop (Obj kvs) k = Inr (map_of kvs k)"
| "get_prop _ k = Inr None"

text \<open>Truthiness, as \<^verbatim>\<open>!x\<close> sees it: an array or object is truthy, also when empty.\<close>

fun truthy :: "jsval \<Rightarrow> bool" where
  "truthy None = False"
| "truthy (Some Null) = False"
| "truthy (Some (Bool b)) = b"
| "truthy (Some (Num n)) = (n \<noteq> NaN \<and> n \<noteq> Fin 0)"
| "truthy (Some (Str s)) = (s \<noteq> [])"
| "truthy (Some (Arr xs)) = True"
| "truthy (Some (Obj kvs)) = True"

section \<open>Numbers from text\<close>

text \<open>
  \<^verbatim>\<open>String(x)\<close> is a list of characters, where the decimal rendering of a finite number is
  kept as one item \<open>NumLit r\<close>: reading it back gives \<open>r\<close>. An array renders its elements
  separated by commas, \<^verbatim>\<open>null\<close> elements as nothing. An object is converted by its
  \<^verbatim>\<open>toString\<close> and \<^verbatim>\<open>valueOf\<close> methods: the inherited ones give \<^verbatim>\<open>[object Object]\<close>, but an own
  property \<^verbatim>\<open>toString\<close> of a parsed object is not a function, \<^verbatim>\<open>valueOf\<close> then returns the
  object itself, and the conversion throws a \<open>TypeError\<close>, also for an object inside an
  array.
\<close>

datatype tchar = Ch char | NumLit rat

type_synonym jstext = "tchar list"

definition chars :: "string \<Rightarrow> jstext" where
  "chars s = map Ch s"

fun join :: "'a list \<Rightarrow> 'a list list \<Rightarrow> 'a list" where
  "join sep [] = []"
| "join sep [x] = x"
| "join sep (x # y # ys) = x @ sep @ join sep (y # ys)"

text \<open>The results of a list of steps, or the first error.\<close>

fun collect :: "(error + 'a) list \<Rightarrow> error + 'a list" where
  "collect [] = Inr []"
| "collect (Inl e # rs) = Inl e"
| "collect (Inr x # rs) = (case collect rs of Inl e \<Rightarrow> Inl e | Inr xs \<Rightarrow> Inr (x # xs))"

fun ToString :: "json \<Rightarrow> error + jstext" where
  "ToString Null = Inr (chars ''null'')"
| "ToString (Bool b) = Inr (chars (if b then ''true'' else ''false''))"
| "ToString (Num NaN) = Inr (chars ''NaN'')"
| "ToString (Num PosInf) = Inr (chars ''Infinity'')"
| "ToString (Num NegInf) = Inr (chars ''-Infinity'')"
| "ToString (Num (Fin r)) = Inr [NumLit r]"
| "ToString (Str s) = Inr (chars s)"
| "ToString (Arr xs) =
     (case collect (map (\<lambda>x. if x = Null then Inr [] else ToString x) xs) of
        Inl e \<Rightarrow> Inl e
      | Inr ts \<Rightarrow> Inr (join [Ch CHR '',''] ts))"
| "ToString (Obj kvs) =
     (if map_of kvs ''toString'' \<noteq> None then Inl TypeError
      else Inr (chars ''[object Object]''))"

definition ToString_val :: "jsval \<Rightarrow> error + jstext" where
  "ToString_val v = (case v of None \<Rightarrow> Inr (chars ''undefined'') | Some x \<Rightarrow> ToString x)"

text \<open>
  A number read from text is kept by its class only: \<^verbatim>\<open>isNaN\<close> and \<^verbatim>\<open>isFinite\<close> see no
  more of it.
\<close>

datatype numclass = CNaN | CInf | CFin

fun classify :: "jsnum \<Rightarrow> numclass" where
  "classify NaN = CNaN"
| "classify PosInf = CInf"
| "classify NegInf = CInf"
| "classify (Fin r) = CFin"

definition isNaN :: "numclass \<Rightarrow> bool" where
  "isNaN c = (c = CNaN)"

definition is_ws :: "char \<Rightarrow> bool" where
  "is_ws c = (c \<in> set [CHR 0x09, CHR 0x0A, CHR 0x0B, CHR 0x0C, CHR 0x0D, CHR 0x20, CHR 0xA0])"

fun is_ws_t :: "tchar \<Rightarrow> bool" where
  "is_ws_t (Ch c) = is_ws c"
| "is_ws_t (NumLit r) = False"

definition is_digit :: "char \<Rightarrow> bool" where
  "is_digit c = (c \<in> set ''0123456789'')"

definition digit_val :: "char \<Rightarrow> int" where
  "digit_val c =
     (if c \<in> set ''0123456789'' then of_char c - 48
      else if c \<in> set ''abcdef'' then of_char c - 87
      else of_char c - 55)"

definition digits_val :: "int \<Rightarrow> string \<Rightarrow> int" where
  "digits_val base ds = foldl (\<lambda>acc c. acc * base + digit_val c) 0 ds"

text \<open>
  The least magnitude that rounds to \<^verbatim>\<open>Infinity\<close>: halfway between the largest double
  \<open>2^1024 - 2^971\<close> and \<open>2^1024\<close>, the tie going up.
\<close>

definition overflow_bound :: int where
  "overflow_bound = 2 ^ 1024 - 2 ^ 970"

definition class_of :: "int \<Rightarrow> int \<Rightarrow> numclass" where
  "class_of m e =
     (if 0 \<le> e then (if overflow_bound \<le> m * 10 ^ nat e then CInf else CFin)
      else (if overflow_bound * 10 ^ nat (- e) \<le> m then CInf else CFin))"

text \<open>
  The longest prefix that is an unsigned decimal literal (digits, an optional fraction, an
  optional exponent; at least one digit before the exponent): its digits as a number
  \<open>m\<close>, the power of ten \<open>e\<close> with value \<open>m * 10^e\<close>, and what follows it.
\<close>

definition scan_exponent :: "string \<Rightarrow> (int \<times> string) option" where
  "scan_exponent cs =
     (case cs of
        [] \<Rightarrow> None
      | c # r \<Rightarrow>
          if c = CHR ''e'' \<or> c = CHR ''E'' then
            (let neg = (r \<noteq> [] \<and> hd r = CHR ''-'');
                 r' = (if r \<noteq> [] \<and> (hd r = CHR ''-'' \<or> hd r = CHR ''+'') then tl r else r);
                 ds = takeWhile is_digit r'
             in if ds = [] then None
                else Some ((if neg then - digits_val 10 ds else digits_val 10 ds),
                           dropWhile is_digit r'))
          else None)"

definition scan_decimal :: "string \<Rightarrow> (int \<times> int \<times> string) option" where
  "scan_decimal cs =
     (let ds1 = takeWhile is_digit cs; r1 = dropWhile is_digit cs;
          has_dot = (r1 \<noteq> [] \<and> hd r1 = CHR ''.'');
          ds2 = (if has_dot then takeWhile is_digit (tl r1) else []);
          r2 = (if has_dot then dropWhile is_digit (tl r1) else r1)
      in if ds1 = [] \<and> ds2 = [] then None
         else (case scan_exponent r2 of
                 None \<Rightarrow> Some (digits_val 10 (ds1 @ ds2), - int (length ds2), r2)
               | Some (e, r3) \<Rightarrow> Some (digits_val 10 (ds1 @ ds2), e - int (length ds2), r3)))"

definition strip_sign :: "string \<Rightarrow> string" where
  "strip_sign cs = (if cs \<noteq> [] \<and> (hd cs = CHR ''+'' \<or> hd cs = CHR ''-'') then tl cs else cs)"

definition is_prefix :: "string \<Rightarrow> string \<Rightarrow> bool" where
  "is_prefix p cs = (take (length p) cs = p)"

text \<open>\<^verbatim>\<open>parseFloat\<close> on characters: leading white space is skipped by the caller.\<close>

definition parseFloat_chars :: "string \<Rightarrow> numclass" where
  "parseFloat_chars cs =
     (let u = strip_sign cs
      in if is_prefix ''Infinity'' u then CInf
         else (case scan_decimal u of None \<Rightarrow> CNaN | Some (m, e, r) \<Rightarrow> class_of m e))"

fun ch_prefix :: "jstext \<Rightarrow> string" where
  "ch_prefix (Ch c # t) = c # ch_prefix t"
| "ch_prefix _ = []"

definition parseFloat_text :: "jstext \<Rightarrow> numclass" where
  "parseFloat_text t =
     (case dropWhile is_ws_t t of
        NumLit r # _ \<Rightarrow> CFin
      | t' \<Rightarrow> parseFloat_chars (ch_prefix t'))"

definition parseFloat :: "jsval \<Rightarrow> error + numclass" where
  "parseFloat v = (case ToString_val v of Inl e \<Rightarrow> Inl e | Inr t \<Rightarrow> Inr (parseFloat_text t))"

text \<open>
  \<^verbatim>\<open>Number\<close> on characters (white space already trimmed): the empty string is 0; a
  literal \<^verbatim>\<open>0x\<close>, \<^verbatim>\<open>0o\<close> or \<^verbatim>\<open>0b\<close> takes no sign; otherwise the whole string must be a
  signed decimal literal or \<^verbatim>\<open>Infinity\<close>.
\<close>

definition is_hex_digit :: "char \<Rightarrow> bool" where
  "is_hex_digit c = (c \<in> set ''0123456789abcdefABCDEF'')"

definition is_octal_digit :: "char \<Rightarrow> bool" where
  "is_octal_digit c = (c \<in> set ''01234567'')"

definition is_binary_digit :: "char \<Rightarrow> bool" where
  "is_binary_digit c = (c \<in> set ''01'')"

definition radix_literal :: "string \<Rightarrow> numclass option" where
  "radix_literal cs =
     (case cs of
        c0 # c1 # ds \<Rightarrow>
          if c0 = CHR ''0'' \<and> ds \<noteq> [] then
            (if (c1 = CHR ''x'' \<or> c1 = CHR ''X'') \<and> list_all is_hex_digit ds
               then Some (class_of (digits_val 16 ds) 0)
             else if (c1 = CHR ''o'' \<or> c1 = CHR ''O'') \<and> list_all is_octal_digit ds
               then Some (class_of (digits_val 8 ds) 0)
             else if (c1 = CHR ''b'' \<or> c1 = CHR ''B'') \<and> list_all is_binary_digit ds
               then Some (class_of (digits_val 2 ds) 0)
             else None)
          else None
      | _ \<Rightarrow> None)"

definition StringToNumber_chars :: "string \<Rightarrow> numclass" where
  "StringToNumber_chars cs =
     (if cs = [] then CFin
      else (case radix_literal cs of
              Some c \<Rightarrow> c
            | None \<Rightarrow>
                (let u = strip_sign cs
                 in if u = ''Infinity'' then CInf
                    else (case scan_decimal u of
                            Some (m, e, []) \<Rightarrow> class_of m e
                          | _ \<Rightarrow> CNaN))))"

fun un_ch :: "tchar \<Rightarrow> char option" where
  "un_ch (Ch c) = Some c"
| "un_ch (NumLit r) = None"

definition trim :: "jstext \<Rightarrow> jstext" where
  "trim t = rev (dropWhile is_ws_t (rev (dropWhile is_ws_t t)))"

text \<open>
  A rendered number that is the whole text reads back as itself; one that stands beside
  other items is beside a comma of an array rendering, which no numeric literal contains.
\<close>

definition StringToNumber :: "jstext \<Rightarrow> numclass" where
  "StringToNumber t =
     (let t' = trim t
      in (case t' of
            [NumLit r] \<Rightarrow> CFin
          | _ \<Rightarrow> if list_all (\<lambda>x. un_ch x \<noteq> None) t'
                 then StringToNumber_chars (map (\<lambda>x. the (un_ch x)) t')
                 else CNaN))"

fun ToNumber :: "jsval \<Rightarrow> error + numclass" where
  "ToNumber None = Inr CNaN"
| "ToNumber (Some Null) = Inr CFin"
| "ToNumber (Some (Bool b)) = Inr CFin"
| "ToNumber (Some (Num n)) = Inr (classify n)"
| "ToNumber (Some x) = (case ToString x of Inl e \<Rightarrow> Inl e | Inr t \<Rightarrow> Inr (StringToNumber t))"

definition isFinite :: "jsval \<Rightarrow> error + bool" where
  "isFinite v = (case ToNumber v of Inl e \<Rightarrow> Inl e | Inr c \<Rightarrow> Inr (c = CFin))"

section \<open>Finite numbers, as the specification reads them\<close>

text \<open>
  The reading of "parses as a finite number": written as text by \<^verbatim>\<open>String\<close>, with the
  white space around it removed, the value is a numeric literal, and the number the literal
  denotes lies below the magnitude at which double precision gives \<^verbatim>\<open>Infinity\<close>. A numeric
  literal is a decimal literal, with an optional sign before it, or an unsigned integer
  literal of radix 16, 8 or 2. A decimal literal is digits with an optional fraction and an
  optional exponent, with at least one digit before the exponent; it denotes
  \<open>m * 10^e\<close>. These definitions describe the strings; they do not scan them.
\<close>

definition digit_string :: "string \<Rightarrow> bool" where
  "digit_string ds = (ds \<noteq> [] \<and> list_all is_digit ds)"

definition exponent_part :: "string \<Rightarrow> int \<Rightarrow> bool" where
  "exponent_part ex x =
     ((ex = [] \<and> x = 0) \<or>
      (\<exists>c es. (c = CHR ''e'' \<or> c = CHR ''E'') \<and> digit_string es \<and>
         ((ex = c # es \<and> x = digits_val 10 es) \<or>
          (ex = c # CHR ''+'' # es \<and> x = digits_val 10 es) \<or>
          (ex = c # CHR ''-'' # es \<and> x = - digits_val 10 es))))"

definition decimal_literal :: "string \<Rightarrow> int \<Rightarrow> int \<Rightarrow> bool" where
  "decimal_literal s m e =
     (\<exists>ip fp ex x.
        list_all is_digit ip \<and> list_all is_digit fp \<and> (ip \<noteq> [] \<or> fp \<noteq> []) \<and>
        exponent_part ex x \<and>
        ((s = ip @ ex \<and> fp = []) \<or> s = ip @ CHR ''.'' # fp @ ex) \<and>
        m = digits_val 10 (ip @ fp) \<and> e = x - int (length fp))"

definition finite_value :: "int \<Rightarrow> int \<Rightarrow> bool" where
  "finite_value m e = (of_int m * (10::rat) powi e < of_int overflow_bound)"

definition radix_integer :: "string \<Rightarrow> int \<Rightarrow> bool" where
  "radix_integer s v =
     (\<exists>c ds. s = CHR ''0'' # c # ds \<and> ds \<noteq> [] \<and>
        (((c = CHR ''x'' \<or> c = CHR ''X'') \<and> list_all is_hex_digit ds \<and> v = digits_val 16 ds) \<or>
         ((c = CHR ''o'' \<or> c = CHR ''O'') \<and> list_all is_octal_digit ds \<and> v = digits_val 8 ds) \<or>
         ((c = CHR ''b'' \<or> c = CHR ''B'') \<and> list_all is_binary_digit ds \<and> v = digits_val 2 ds)))"

definition numeric_string :: "string \<Rightarrow> bool" where
  "numeric_string s =
     ((\<exists>u m e. (s = u \<or> s = CHR ''+'' # u \<or> s = CHR ''-'' # u) \<and>
                decimal_literal u m e \<and> finite_value m e) \<or>
      (\<exists>v. radix_integer s v \<and> finite_value v 0))"

text \<open>
  The rendering of a finite number is such a literal as it stands; \<^verbatim>\<open>"Infinity"\<close> and
  \<^verbatim>\<open>"NaN"\<close>, the empty string and a value that cannot be converted to text are not.
\<close>

definition parses_as_finite_number :: "jsval \<Rightarrow> bool" where
  "parses_as_finite_number v =
     (case ToString_val v of
        Inl e \<Rightarrow> False
      | Inr t \<Rightarrow> (\<exists>r. trim t = [NumLit r]) \<or> (\<exists>s. trim t = chars s \<and> numeric_string s))"

section \<open>Deal Validator\<close>

text \<open>
  \<^verbatim>\<open>deal.storeID !== null && deal.storeID !== "" && deal.price !== null && deal.price !== ""\<close>.
  The reads throw when the entry itself is \<^verbatim>\<open>null\<close>.
\<close>

definition isDealValid :: "json \<Rightarrow> error + bool" where
  "isDealValid deal =
     (case get_prop deal ''storeID'' of
        Inl e \<Rightarrow> Inl e
      | Inr sid \<Rightarrow>
          (case get_prop deal ''price'' of
             Inl e \<Rightarrow> Inl e
           | Inr p \<Rightarrow> Inr (sid \<noteq> Some Null \<and> sid \<noteq> Some (Str []) \<and>
                         p \<noteq> Some Null \<and> p \<noteq> Some (Str []))))"

text \<open>
  \<^verbatim>\<open>!isNaN(parseFloat(value)) && isFinite(value)\<close>: \<^verbatim>\<open>isFinite\<close> is not reached when
  \<^verbatim>\<open>parseFloat\<close> gave \<^verbatim>\<open>NaN\<close>.
\<close>

definition isNumerical :: "jsval \<Rightarrow> error + bool" where
  "isNumerical v =
     (case parseFloat v of
        Inl e \<Rightarrow> Inl e
      | Inr c \<Rightarrow> if isNaN c then Inr False else isFinite v)"

text \<open>
  Membership in a \<^verbatim>\<open>Set\<close>: primitives by value (\<^verbatim>\<open>NaN\<close> is found again), arrays and
  objects by reference. Two entries of one parsed body never share a reference, so an array
  or object is never found.
\<close>

fun is_ref :: "jsval \<Rightarrow> bool" where
  "is_ref (Some (Arr xs)) = True"
| "is_ref (Some (Obj kvs)) = True"
| "is_ref _ = False"

definition same_value_zero :: "jsval \<Rightarrow> jsval \<Rightarrow> bool" where
  "same_value_zero a b = (a = b \<and> \<not> is_ref a)"

definition set_has :: "jsval list \<Rightarrow> jsval \<Rightarrow> bool" where
  "set_has S v = list_ex (\<lambda>a. same_value_zero a v) S"

fun unique_loop :: "jsval list \<Rightarrow> json list \<Rightarrow> error + bool" where
  "unique_loop storeIDSet [] = Inr True"
| "unique_loop storeIDSet (deal # deals) =
     (case get_prop deal ''storeID'' of
        Inl e \<Rightarrow> Inl e
      | Inr sid \<Rightarrow>
          if set_has storeIDSet sid then Inr False
          else unique_loop (storeIDSet @ [sid]) deals)"

definition hasUniqueStoreIDs :: "json list \<Rightarrow> error + bool" where
  "hasUniqueStoreIDs deals = unique_loop [] deals"

fun validateDealAttributes :: "json list \<Rightarrow> error + unit" where
  "validateDealAttributes [] = Inr ()"
| "validateDealAttributes (deal # deals) =
     (case isDealValid deal of
        Inl e \<Rightarrow> Inl e
      | Inr False \<Rightarrow> Inl InvalidDeal
      | Inr True \<Rightarrow>
          (case get_prop deal ''price'' of
             Inl e \<Rightarrow> Inl e
           | Inr p \<Rightarrow>
               (case isNumerical p of
                  Inl e \<Rightarrow> Inl e
                | Inr numerical \<Rightarrow>
                    if \<not> numerical then Inl (NonNumericPrice p)
                    else validateDealAttributes deals)))"

definition validateCheapestPrice :: "jsval \<Rightarrow> error + unit" where
  "validateCheapestPrice cheapestPrice =
     (case isNumerical cheapestPrice of
        Inl e \<Rightarrow> Inl e
      | Inr numerical \<Rightarrow>
          if \<not> numerical then Inl (NonNumericCheapestPrice cheapestPrice)
          else Inr ())"

text \<open>The objects \<^verbatim>\<open>{storeID: deal.storeID, price: deal.price}\<close> that the validator returns.\<close>

record deal_entry =
  storeID :: jsval
  price :: jsval

fun map_deals :: "json list \<Rightarrow> error + deal_entry list" where
  "map_deals [] = Inr []"
| "map_deals (deal # deals) =
     (case get_prop deal ''storeID'' of
        Inl e \<Rightarrow> Inl e
      | Inr sid \<Rightarrow>
          (case get_prop deal ''price'' of
             Inl e \<Rightarrow> Inl e
           | Inr p \<Rightarrow>
               (case map_deals deals of
                  Inl e \<Rightarrow> Inl e
                | Inr rest \<Rightarrow> Inr (\<lparr>storeID = sid, price = p\<rparr> # rest))))"

definition validateDeals :: "jsval \<Rightarrow> error + deal_entry list" where
  "validateDeals deals =
     (case deals of
        Some (Arr ds) \<Rightarrow>
          if ds = [] then Inl EmptyInput
          else (case validateDealAttributes ds of
                  Inl e \<Rightarrow> Inl e
                | Inr u \<Rightarrow>
                    (case hasUniqueStoreIDs ds of
                       Inl e \<Rightarrow> Inl e
                     | Inr False \<Rightarrow> Inl DuplicateStoreID
                     | Inr True \<Rightarrow> map_deals ds))
      | _ \<Rightarrow> Inl EmptyInput)"

section \<open>Game Attribute Validator\<close>

definition isAttributeInvalid :: "json \<Rightarrow> string \<Rightarrow> error + bool" where
  "isAttributeInvalid game attr =
     (if attr = ''title'' \<or> attr = ''cheapestPrice'' \<or> attr = ''deals'' then
        (case get_prop game attr of
           Inl e \<Rightarrow> Inl e
         | Inr v \<Rightarrow> Inr (\<not> truthy v \<or> v = Some Null \<or> v = Some (Str [])))
      else Inr False)"

fun filter_invalid :: "json \<Rightarrow> string list \<Rightarrow> error + string list" where
  "filter_invalid game [] = Inr []"
| "filter_invalid game (attr # attrs) =
     (case isAttributeInvalid game attr of
        Inl e \<Rightarrow> Inl e
      | Inr b \<Rightarrow>
          (case filter_invalid game attrs of
             Inl e \<Rightarrow> Inl e
           | Inr rest \<Rightarrow> Inr (if b then attr # rest else rest)))"

definition requiredAttributes :: "string list" where
  "requiredAttributes = [''title'', ''cheapestPrice'', ''deals'']"

definition validateGameAttributes :: "json \<Rightarrow> error + unit" where
  "validateGameAttributes game =
     (case filter_invalid game requiredAttributes of
        Inl e \<Rightarrow> Inl e
      | Inr invalidAttributes \<Rightarrow>
          (case get_prop game ''cheapestPrice'' of
             Inl e \<Rightarrow> Inl e
           | Inr cp \<Rightarrow>
               (case validateCheapestPrice cp of
                  Inl e \<Rightarrow> Inl e
                | Inr u \<Rightarrow>
                    if invalidAttributes \<noteq> [] then Inl (MissingRequiredAttributes invalidAttributes)
                    else Inr ())))"

section \<open>Reading the results\<close>

text \<open>What a property read gives where it does not throw.\<close>

definition field :: "json \<Rightarrow> string \<Rightarrow> jsval" where
  "field x k = (case get_prop x k of Inl e \<Rightarrow> None | Inr v \<Rightarrow> v)"

definition normalized :: "json \<Rightarrow> deal_entry" where
  "normalized deal = \<lparr>storeID = field deal ''storeID'', price = field deal ''price''\<rparr>"

text \<open>An entry that passes both checks of \<^verbatim>\<open>validateDealAttributes\<close>.\<close>

definition deal_ok :: "json \<Rightarrow> bool" where
  "deal_ok deal =
     (deal \<noteq> Null \<and>
      field deal ''storeID'' \<noteq> Some Null \<and> field deal ''storeID'' \<noteq> Some (Str []) \<and>
      field deal ''price'' \<noteq> Some Null \<and> field deal ''price'' \<noteq> Some (Str []) \<and>
      isNumerical (field deal ''price'') = Inr True)"

text \<open>The storeIDs of a list of deals, and those among them that a \<^verbatim>\<open>Set\<close> finds again.\<close>

definition prims :: "jsval list \<Rightarrow> jsval list" where
  "prims vs = filter (\<lambda>v. \<not> is_ref v) vs"

definition storeIDs :: "json list \<Rightarrow> jsval list" where
  "storeIDs ds = map (\<lambda>d. field d ''storeID'') ds"

text \<open>The required attributes that are falsy in a payload, in the order of the source.\<close>

definition missing :: "json \<Rightarrow> string list" where
  "missing game = filter (\<lambda>attr. \<not> truthy (field game attr)) requiredAttributes"

section \<open>Equality Checker\<close>

text \<open>
  The text that \<^verbatim>\<open>JSON.stringify\<close> returns, kept as its sequence of JSON lexemes: a string
  literal (quoted and escaped in the text) is one lexeme, and so is the rendering of a
  finite number. Two results are the same string exactly when they are the same sequence.
  A number that is not finite is written \<^verbatim>\<open>null\<close>; of \<^verbatim>\<open>undefined\<close> the result is
  \<^verbatim>\<open>undefined\<close>.
\<close>

datatype lexeme =
  LBrace | RBrace | LBrack | RBrack | Comma | Colon
  | LStr string | LNum rat | LNull | LTrue | LFalse

fun stringify :: "json \<Rightarrow> lexeme list" where
  "stringify Null = [LNull]"
| "stringify (Bool b) = [if b then LTrue else LFalse]"
| "stringify (Num (Fin r)) = [LNum r]"
| "stringify (Num n) = [LNull]"
| "stringify (Str s) = [LStr s]"
| "stringify (Arr xs) = LBrack # join [Comma] (map stringify xs) @ [RBrack]"
| "stringify (Obj kvs) =
     LBrace # join [Comma] (map (\<lambda>(k, v). LStr k # Colon # stringify v) kvs) @ [RBrace]"

definition JSON_stringify :: "jsval \<Rightarrow> lexeme list option" where
  "JSON_stringify v = map_option stringify v"

text \<open>A value without \<^verbatim>\<open>NaN\<close> and the infinities, at any depth.\<close>

fun plain :: "json \<Rightarrow> bool" where
  "plain (Num n) = (case n of Fin r \<Rightarrow> True | _ \<Rightarrow> False)"
| "plain (Arr xs) = (\<forall>x \<in> set xs. plain x)"
| "plain (Obj kvs) = (\<forall>(k, v) \<in> set kvs. plain v)"
| "plain _ = True"

definition plain_val :: "jsval \<Rightarrow> bool" where
  "plain_val v = (case v of None \<Rightarrow> True | Some x \<Rightarrow> plain x)"

text \<open>
  The five properties of a game that the program reads, of a stored document and of the
  object \<^verbatim>\<open>{ gameID, title, thumb, cheapestPrice, deals }\<close> built from a request body alike;
  \<open>None\<close> is a property that is missing or \<^verbatim>\<open>undefined\<close>.
\<close>

record game =
  gameID :: jsval
  title :: jsval
  thumb :: jsval
  cheapestPrice :: jsval
  deals :: jsval

text \<open>
  \<^verbatim>\<open>a === b\<close> between a value of the stored document and a value of the request body:
  primitives are compared by type and value, \<^verbatim>\<open>NaN\<close> equals nothing, and an array or
  object equals only itself, which a value from the other source never is.
\<close>

definition comparable :: "jsval \<Rightarrow> bool" where
  "comparable v = (\<not> is_ref v \<and> v \<noteq> Some (Num NaN))"

definition strict_eq :: "jsval \<Rightarrow> jsval \<Rightarrow> bool" where
  "strict_eq a b = (a = b \<and> comparable a)"

definition checkIfSameGame :: "game \<Rightarrow> game \<Rightarrow> bool" where
  "checkIfSameGame existingGame newGameData =
     (strict_eq (gameID existingGame) (gameID newGameData) \<and>
      strict_eq (title existingGame) (title newGameData) \<and>
      strict_eq (thumb existingGame) (thumb newGameData) \<and>
      strict_eq (cheapestPrice existingGame) (cheapestPrice newGameData) \<and>
      JSON_stringify (deals existingGame) = JSON_stringify (deals newGameData))"

section \<open>The document store\<close>

text \<open>
  The collection is the list of its documents in insertion order, each under its key
  (\<^verbatim>\<open>_id\<close>) and seen through the five properties the program reads. Whether
  \<^verbatim>\<open>connectDB\<close> succeeds and whether the operations on the collection succeed are part of
  the state; a failing operation throws \<open>StorageFailure\<close> and changes nothing.

  The program puts values of the request into its filters as they are. A value that
  carries a property whose name starts with \<^verbatim>\<open>$\<close> is read by the store as an expression of
  its query language, or may be. That language is not described here: what the store makes
  of a filter with such a value is the component \<open>query_language\<close> of the store, which
  rejects the filter or gives the condition on a document that the filter stands for.
\<close>

record db =
  connects :: bool
  answers :: bool
  docs :: "(nat \<times> game) list"
  query_language :: "json \<Rightarrow> error + (game \<Rightarrow> bool)"

definition connectDB :: "db \<Rightarrow> error + unit" where
  "connectDB d = (if connects d then Inr () else Inl StorageFailure)"

text \<open>
  The store's client writes a property whose value is \<^verbatim>\<open>undefined\<close> as \<^verbatim>\<open>null\<close>, in a
  document and in a filter alike; a filter on a property sees a missing property as
  \<^verbatim>\<open>null\<close>. A value without query operators selects the stored values that are equal to
  it and the stored arrays that hold it as an element; \<^verbatim>\<open>$ne\<close> selects the others.
\<close>

definition nz :: "jsval \<Rightarrow> json" where
  "nz v = (case v of None \<Rightarrow> Null | Some x \<Rightarrow> x)"

definition bson :: "game \<Rightarrow> game" where
  "bson g = \<lparr>gameID = Some (nz (gameID g)), title = Some (nz (title g)),
             thumb = Some (nz (thumb g)), cheapestPrice = Some (nz (cheapestPrice g)),
             deals = Some (nz (deals g))\<rparr>"

fun dollar_key :: "string \<Rightarrow> bool" where
  "dollar_key [] = False"
| "dollar_key (c # cs) = (c = CHR ''$'')"

fun has_operator :: "json \<Rightarrow> bool" where
  "has_operator (Arr xs) = (\<exists>x \<in> set xs. has_operator x)"
| "has_operator (Obj kvs) = (\<exists>(k, v) \<in> set kvs. dollar_key k \<or> has_operator v)"
| "has_operator _ = False"

definition value_match :: "json \<Rightarrow> json \<Rightarrow> bool" where
  "value_match stored q = (stored = q \<or> (case stored of Arr xs \<Rightarrow> q \<in> set xs | _ \<Rightarrow> False))"

text \<open>
  \<^verbatim>\<open>findOne(filter)\<close>: the first document that satisfies the filter, when the store accepts
  the filter.
\<close>

definition findOne ::
  "db \<Rightarrow> error + (nat \<times> game \<Rightarrow> bool) \<Rightarrow> error + (nat \<times> game) option" where
  "findOne d condition =
     (if answers d then
        (case condition of Inl e \<Rightarrow> Inl e | Inr matches \<Rightarrow> Inr (find matches (docs d)))
      else Inl StorageFailure)"

definition fresh :: "(nat \<times> game) list \<Rightarrow> nat" where
  "fresh ds = Suc (foldr max (map fst ds) 0)"

definition insertOne :: "db \<Rightarrow> game \<Rightarrow> error + (nat \<times> db)" where
  "insertOne d g =
     (if answers d then Inr (fresh (docs d), d\<lparr>docs := docs d @ [(fresh (docs d), bson g)]\<rparr>)
      else Inl StorageFailure)"

fun set_first :: "nat \<Rightarrow> game \<Rightarrow> (nat \<times> game) list \<Rightarrow> (nat \<times> game) list" where
  "set_first k g [] = []"
| "set_first k g ((k', g') # ds) = (if k' = k then (k, g) # ds else (k', g') # set_first k g ds)"


definition deleteMany :: "db \<Rightarrow> error + (nat \<times> db)" where
  "deleteMany d = (if answers d then Inr (length (docs d), d\<lparr>docs := []\<rparr>) else Inl StorageFailure)"

section \<open>Record Reconciler\<close>

text \<open>
  What a route does with the request: the response it sends, by status and content, or no
  response when the handler's promise rejects.
\<close>

datatype fetch_result =
    InvalidAPIResponse
  | GameAlreadyExists
  | GameInserted nat
  | FetchStoreFailed

datatype content =
    Added nat
  | Updated
  | DeletedCount nat
  | ErrorOf error
  | InternalServerError
  | Fetched fetch_result

datatype outcome = Reply nat content | Rejected error

definition game_of :: "json \<Rightarrow> game" where
  "game_of body = \<lparr>gameID = field body ''gameID'', title = field body ''title'',
                    thumb = field body ''thumb'', cheapestPrice = field body ''cheapestPrice'',
                    deals = field body ''deals''\<rparr>"

text \<open>
  The filter of the create path,
  \<^verbatim>\<open>{ $or: [ { gameID: { $ne: null, $eq: gameID } }, { title } ] }\<close>.
\<close>

definition create_filter :: "json \<Rightarrow> json \<Rightarrow> json" where
  "create_filter g t =
     Obj [(''$or'', Arr [Obj [(''gameID'', Obj [(''$ne'', Null), (''$eq'', g)])],
                          Obj [(''title'', t)]])]"

definition conflict_match :: "game \<Rightarrow> nat \<times> game \<Rightarrow> bool" where
  "conflict_match new kd =
     ((\<not> value_match (nz (gameID (snd kd))) Null \<and>
       value_match (nz (gameID (snd kd))) (nz (gameID new))) \<or>
      value_match (nz (title (snd kd))) (nz (title new)))"

definition conflicts :: "db \<Rightarrow> game \<Rightarrow> error + (nat \<times> game \<Rightarrow> bool)" where
  "conflicts d new =
     (if has_operator (nz (gameID new)) \<or> has_operator (nz (title new)) then
        (case query_language d (create_filter (nz (gameID new)) (nz (title new))) of
           Inl e \<Rightarrow> Inl e
         | Inr c \<Rightarrow> Inr (\<lambda>kd. c (snd kd)))
      else Inr (conflict_match new))"

text \<open>The body of the \<^verbatim>\<open>try\<close> of \<^verbatim>\<open>app.post('/games')\<close>.\<close>

definition create_game :: "db \<Rightarrow> json \<Rightarrow> error + (nat \<times> db)" where
  "create_game d body =
     (if body = Null then Inl TypeError
      else (case validateGameAttributes body of
              Inl e \<Rightarrow> Inl e
            | Inr u \<Rightarrow>
                (case validateDeals (field body ''deals'') of
                   Inl e \<Rightarrow> Inl e
                 | Inr unused \<Rightarrow>
                     (case findOne d (conflicts d (game_of body)) of
                        Inl e \<Rightarrow> Inl e
                      | Inr (Some existingGame) \<Rightarrow> Inl DuplicateGame
                      | Inr None \<Rightarrow> insertOne d (game_of body)))))"

definition post_games :: "db \<Rightarrow> json \<Rightarrow> outcome \<times> db" where
  "post_games d body =
     (case connectDB d of
        Inl e \<Rightarrow> (Rejected e, d)
      | Inr collection \<Rightarrow>
          (case create_game d body of
             Inl e \<Rightarrow> (Reply 400 (ErrorOf e), d)
           | Inr (k, d') \<Rightarrow> (Reply 201 (Added k), d')))"





text \<open>\<^verbatim>\<open>app.delete('/games')\<close>: here \<^verbatim>\<open>connectDB\<close> is inside the \<^verbatim>\<open>try\<close>.\<close>

definition delete_games :: "db \<Rightarrow> outcome \<times> db" where
  "delete_games d =
     (case connectDB d of
        Inl e \<Rightarrow> (Reply 500 InternalServerError, d)
      | Inr collection \<Rightarrow>
          (case deleteMany d of
             Inl e \<Rightarrow> (Reply 500 InternalServerError, d)
           | Inr (deletedCount, d') \<Rightarrow> (Reply 200 (DeletedCount deletedCount), d')))"

text \<open>A request body that both validators accept.\<close>

definition valid_body :: "json \<Rightarrow> bool" where
  "valid_body body =
     (body \<noteq> Null \<and> validateGameAttributes body = Inr () \<and>
      (case validateDeals (field body ''deals'') of Inl e \<Rightarrow> False | Inr ds \<Rightarrow> True))"

section \<open>External Fetch Adapter\<close>

text \<open>\<^verbatim>\<open>Object.keys(x).length\<close> of a truthy value.\<close>

fun keys_length :: "json \<Rightarrow> nat" where
  "keys_length (Obj kvs) = length kvs"
| "keys_length (Arr xs) = length xs"
| "keys_length (Str s) = length s"
| "keys_length _ = 0"

text \<open>\<^verbatim>\<open>x.a.b\<close>: the second read throws when the first gave \<^verbatim>\<open>undefined\<close> or \<^verbatim>\<open>null\<close>.\<close>

definition get_path :: "json \<Rightarrow> string \<Rightarrow> string \<Rightarrow> error + jsval" where
  "get_path x a b =
     (case get_prop x a of
        Inl e \<Rightarrow> Inl e
      | Inr None \<Rightarrow> Inl TypeError
      | Inr (Some y) \<Rightarrow> get_prop y b)"

text \<open>
  \<^verbatim>\<open>.filter(deal => deal.storeID != null && deal.price != null)\<close> and then
  \<^verbatim>\<open>.map(deal => ({ storeID: deal.storeID, price: deal.price }))\<close>.
\<close>

fun format_deals :: "json list \<Rightarrow> error + json list" where
  "format_deals [] = Inr []"
| "format_deals (deal # rest) =
     (case get_prop deal ''storeID'' of
        Inl e \<Rightarrow> Inl e
      | Inr sid \<Rightarrow>
          (case get_prop deal ''price'' of
             Inl e \<Rightarrow> Inl e
           | Inr p \<Rightarrow>
               (case format_deals rest of
                  Inl e \<Rightarrow> Inl e
                | Inr ds \<Rightarrow>
                    if sid \<noteq> None \<and> sid \<noteq> Some Null \<and> p \<noteq> None \<and> p \<noteq> Some Null
                    then Inr (Obj [(''storeID'', nz sid), (''price'', nz p)] # ds)
                    else Inr ds)))"

definition format_game :: "json \<Rightarrow> error + game" where
  "format_game gameData =
     (case get_path gameData ''info'' ''gameID'' of
        Inl e \<Rightarrow> Inl e
      | Inr gid \<Rightarrow>
     (case get_path gameData ''info'' ''title'' of
        Inl e \<Rightarrow> Inl e
      | Inr ttl \<Rightarrow>
     (case get_path gameData ''info'' ''thumb'' of
        Inl e \<Rightarrow> Inl e
      | Inr thb \<Rightarrow>
     (case get_path gameData ''cheapestPriceEver'' ''price'' of
        Inl e \<Rightarrow> Inl e
      | Inr cp \<Rightarrow>
     (case get_prop gameData ''deals'' of
        Inl e \<Rightarrow> Inl e
      | Inr (Some (Arr ds)) \<Rightarrow>
          (case format_deals ds of
             Inl e \<Rightarrow> Inl e
           | Inr fds \<Rightarrow>
               Inr \<lparr>gameID = gid, title = ttl, thumb = thb, cheapestPrice = cp,
                    deals = Some (Arr fds)\<rparr>)
      | Inr other \<Rightarrow> Inl TypeError)))))"

text \<open>The filter \<^verbatim>\<open>{ gameID: formattedGame.gameID }\<close>.\<close>

definition same_gameID :: "db \<Rightarrow> game \<Rightarrow> error + (nat \<times> game \<Rightarrow> bool)" where
  "same_gameID d new =
     (if has_operator (nz (gameID new)) then
        (case query_language d (Obj [(''gameID'', nz (gameID new))]) of
           Inl e \<Rightarrow> Inl e
         | Inr c \<Rightarrow> Inr (\<lambda>kd. c (snd kd)))
      else Inr (\<lambda>kd. value_match (nz (gameID (snd kd))) (nz (gameID new))))"

text \<open>
  The body of the \<^verbatim>\<open>try\<close> of \<^verbatim>\<open>fetchAndStoreGame\<close>; \<open>api\<close> is what \<^verbatim>\<open>axios.get\<close> does:
  it throws, or gives \<^verbatim>\<open>response.data\<close>.
\<close>

definition fetch_and_store :: "db \<Rightarrow> error + jsval \<Rightarrow> error + fetch_result \<times> db" where
  "fetch_and_store d api =
     (case api of
        Inl e \<Rightarrow> Inl e
      | Inr None \<Rightarrow> Inr (InvalidAPIResponse, d)
      | Inr (Some gameData) \<Rightarrow>
          if \<not> truthy (Some gameData) \<or> keys_length gameData = 0 then Inr (InvalidAPIResponse, d)
          else (case format_game gameData of
                  Inl e \<Rightarrow> Inl e
                | Inr formattedGame \<Rightarrow>
                    (case findOne d (same_gameID d formattedGame) of
                       Inl e \<Rightarrow> Inl e
                     | Inr (Some existingGame) \<Rightarrow> Inr (GameAlreadyExists, d)
                     | Inr None \<Rightarrow>
                         (case insertOne d formattedGame of
                            Inl e \<Rightarrow> Inl e
                          | Inr (k, d') \<Rightarrow> Inr (GameInserted k, d')))))"

text \<open>
  \<^verbatim>\<open>fetchAndStoreGame\<close>: \<^verbatim>\<open>connectDB\<close> is awaited before the \<^verbatim>\<open>try\<close>, so what it throws
  leaves the function (\<open>Inl\<close>); what the \<^verbatim>\<open>try\<close> throws is caught and returned as a result.
\<close>

definition fetchAndStoreGame :: "db \<Rightarrow> error + jsval \<Rightarrow> (error + fetch_result) \<times> db" where
  "fetchAndStoreGame d api =
     (case connectDB d of
        Inl e \<Rightarrow> (Inl e, d)
      | Inr collection \<Rightarrow>
          (case fetch_and_store d api of
             Inl e \<Rightarrow> (Inr FetchStoreFailed, d)
           | Inr (r, d') \<Rightarrow> (Inr r, d')))"

text \<open>\<^verbatim>\<open>app.post('/fetch-store')\<close>: no \<^verbatim>\<open>try\<close> around the call.\<close>

definition post_fetch_store :: "db \<Rightarrow> error + jsval \<Rightarrow> outcome \<times> db" where
  "post_fetch_store d api =
     (case fetchAndStoreGame d api of
        (Inl e, d') \<Rightarrow> (Rejected e, d')
      | (Inr result, d') \<Rightarrow> (Reply 200 (Fetched result), d'))"

section \<open>The numeric check and the reading of the specification\<close>

lemma not_digit [simp]:
  "\<not> is_digit CHR ''.''" "\<not> is_digit CHR ''e''" "\<not> is_digit CHR ''E''"
  "\<not> is_digit CHR ''+''" "\<not> is_digit CHR ''-''"
  by (simp_all add: is_digit_def)

lemma scan_digits:
  assumes "list_all is_digit ds" and "rest = [] \<or> \<not> is_digit (hd rest)"
  shows "takeWhile is_digit (ds @ rest) = ds" and "dropWhile is_digit (ds @ rest) = rest"
proof -
  have a: "\<And>x. x \<in> set ds \<Longrightarrow> is_digit x" using assms(1) by (simp add: list_all_iff)
  have t: "takeWhile is_digit rest = []" using assms(2) by (cases rest) auto
  have d: "dropWhile is_digit rest = rest" using assms(2) by (cases rest) auto
  show "takeWhile is_digit (ds @ rest) = ds" using a t by (simp add: takeWhile_append2)
  show "dropWhile is_digit (ds @ rest) = rest" using a d by (simp add: dropWhile_append2)
qed

lemma split_digits:
  "\<exists>ds rest. cs = ds @ rest \<and> list_all is_digit ds \<and> (rest = [] \<or> \<not> is_digit (hd rest))"
proof (intro exI conjI)
  show "cs = takeWhile is_digit cs @ dropWhile is_digit cs" by simp
  show "list_all is_digit (takeWhile is_digit cs)"
    by (simp add: list_all_iff) (meson set_takeWhileD)
  show "dropWhile is_digit cs = [] \<or> \<not> is_digit (hd (dropWhile is_digit cs))"
    by (metis hd_dropWhile)
qed

lemma scan_exponent_part:
  assumes "exponent_part ex x"
  shows "scan_exponent ex = (if ex = [] then None else Some (x, []))"
proof (cases "ex = []")
  case True
  then show ?thesis by (simp add: scan_exponent_def)
next
  case False
  with assms obtain c es where c: "c = CHR ''e'' \<or> c = CHR ''E''" and es: "digit_string es"
    and sh: "(ex = c # es \<and> x = digits_val 10 es) \<or>
          (ex = c # CHR ''+'' # es \<and> x = digits_val 10 es) \<or>
          (ex = c # CHR ''-'' # es \<and> x = - digits_val 10 es)"
    by (auto simp: exponent_part_def)
  from es have ne: "es \<noteq> []" and all: "list_all is_digit es" by (simp_all add: digit_string_def)
  from ne all have hd: "is_digit (hd es)" by (cases es) simp_all
  then have nosign: "hd es \<noteq> CHR ''-''" "hd es \<noteq> CHR ''+''" by auto
  have tk: "takeWhile is_digit es = es" "dropWhile is_digit es = []"
    using scan_digits [OF all, of "[]"] by simp_all
  from sh show ?thesis
  proof (elim disjE conjE)
    assume "ex = c # es" "x = digits_val 10 es"
    then show ?thesis using c ne nosign by (auto simp: scan_exponent_def Let_def tk)
  next
    assume "ex = c # CHR ''+'' # es" "x = digits_val 10 es"
    then show ?thesis using c ne by (auto simp: scan_exponent_def Let_def tk)
  next
    assume "ex = c # CHR ''-'' # es" "x = - digits_val 10 es"
    then show ?thesis using c ne by (auto simp: scan_exponent_def Let_def tk)
  qed
qed

lemma all_digits_conv:
  "dropWhile is_digit t = [] \<Longrightarrow> list_all is_digit t \<and> takeWhile is_digit t = t"
  by (simp add: dropWhile_eq_Nil_conv list_all_iff takeWhile_eq_all_conv)

lemma scan_exponent_whole:
  assumes "scan_exponent r = Some (x, [])"
  shows "exponent_part r x \<and> r \<noteq> []"
proof -
  from assms obtain c r0 where r: "r = c # r0" and c: "c = CHR ''e'' \<or> c = CHR ''E''"
    by (cases r) (auto simp: scan_exponent_def split: if_splits)
  show ?thesis
  proof (cases "r0 \<noteq> [] \<and> (hd r0 = CHR ''-'' \<or> hd r0 = CHR ''+'')")
    case True
    then obtain sg t where r0: "r0 = sg # t" and sg: "sg = CHR ''-'' \<or> sg = CHR ''+''"
      by (cases r0) auto
    from assms have ne: "takeWhile is_digit t \<noteq> []" and dr: "dropWhile is_digit t = []"
      and x: "x = (if sg = CHR ''-'' then - digits_val 10 (takeWhile is_digit t)
                   else digits_val 10 (takeWhile is_digit t))"
      unfolding r r0 using c sg by (auto simp: scan_exponent_def Let_def split: if_splits)
    from all_digits_conv [OF dr] have all: "list_all is_digit t" and tk: "takeWhile is_digit t = t"
      by simp_all
    from ne tk all have d: "digit_string t" by (simp add: digit_string_def)
    from x have x': "x = (if sg = CHR ''-'' then - digits_val 10 t else digits_val 10 t)"
      unfolding tk .
    have "exponent_part (c # sg # t) x"
      unfolding exponent_part_def using c sg d x' by auto
    then show ?thesis using r r0 by simp
  next
    case False
    from assms have ne: "takeWhile is_digit r0 \<noteq> []" and dr: "dropWhile is_digit r0 = []"
      and x: "x = digits_val 10 (takeWhile is_digit r0)"
      unfolding r using c False by (auto simp: scan_exponent_def Let_def split: if_splits)
    from all_digits_conv [OF dr] have all: "list_all is_digit r0" and tk: "takeWhile is_digit r0 = r0"
      by simp_all
    from ne tk all have d: "digit_string r0" by (simp add: digit_string_def)
    from x have x': "x = digits_val 10 r0" unfolding tk .
    have "exponent_part (c # r0) x"
      unfolding exponent_part_def using c d x' by auto
    then show ?thesis using r by simp
  qed
qed

lemma scan_decimal_int:
  assumes "list_all is_digit ip" and "ip \<noteq> []"
    and "rest = [] \<or> (\<not> is_digit (hd rest) \<and> hd rest \<noteq> CHR ''.'')"
  shows "scan_decimal (ip @ rest) =
           (case scan_exponent rest of
              None \<Rightarrow> Some (digits_val 10 ip, 0, rest)
            | Some (x, r3) \<Rightarrow> Some (digits_val 10 ip, x, r3))"
proof -
  have r: "rest = [] \<or> \<not> is_digit (hd rest)" using assms(3) by auto
  have nodot: "(rest \<noteq> [] \<and> hd rest = CHR ''.'') = False" using assms(3) by auto
  show ?thesis
    unfolding scan_decimal_def Let_def scan_digits [OF assms(1) r] nodot
    using assms(2) by (simp split: option.splits)
qed

lemma scan_decimal_frac:
  assumes "list_all is_digit ip" and "list_all is_digit fp" and "ip \<noteq> [] \<or> fp \<noteq> []"
    and "rest = [] \<or> \<not> is_digit (hd rest)"
  shows "scan_decimal (ip @ CHR ''.'' # fp @ rest) =
           (case scan_exponent rest of
              None \<Rightarrow> Some (digits_val 10 (ip @ fp), - int (length fp), rest)
            | Some (x, r3) \<Rightarrow> Some (digits_val 10 (ip @ fp), x - int (length fp), r3))"
proof -
  have d: "CHR ''.'' # fp @ rest = [] \<or> \<not> is_digit (hd (CHR ''.'' # fp @ rest))" by simp
  show ?thesis
    unfolding scan_decimal_def Let_def scan_digits [OF assms(1) d]
    using assms(3) by (simp add: scan_digits [OF assms(2,4)] split: option.splits)
qed

lemma scan_decimal_other:
  assumes "cs = [] \<or> (\<not> is_digit (hd cs) \<and> hd cs \<noteq> CHR ''.'')"
  shows "scan_decimal cs = None"
proof -
  have "takeWhile is_digit cs = []" "dropWhile is_digit cs = cs"
    using assms by (cases cs; auto)+
  then show ?thesis
    unfolding scan_decimal_def Let_def using assms by auto
qed

lemma scan_decimal_dot:
  assumes "rest = [] \<or> \<not> is_digit (hd rest)"
  shows "scan_decimal (CHR ''.'' # rest) = None"
proof -
  have "takeWhile is_digit rest = []" using assms by (cases rest) auto
  then show ?thesis
    unfolding scan_decimal_def Let_def by simp
qed

lemma exponent_part_start:
  "exponent_part ex x \<Longrightarrow> ex = [] \<or> (\<not> is_digit (hd ex) \<and> hd ex \<noteq> CHR ''.'')"
  by (auto simp: exponent_part_def)

lemma decimal_literal_scan:
  assumes "decimal_literal s m e"
  shows "scan_decimal s = Some (m, e, [])"
proof -
  from assms obtain ip fp ex x where ip: "list_all is_digit ip" and fp: "list_all is_digit fp"
    and ne: "ip \<noteq> [] \<or> fp \<noteq> []" and ex: "exponent_part ex x"
    and s: "(s = ip @ ex \<and> fp = []) \<or> s = ip @ CHR ''.'' # fp @ ex"
    and m: "m = digits_val 10 (ip @ fp)" and e: "e = x - int (length fp)"
    unfolding decimal_literal_def by blast
  note st = exponent_part_start [OF ex]
  have x0: "ex = [] \<Longrightarrow> x = 0" using ex by (auto simp: exponent_part_def)
  from s show ?thesis
  proof
    assume a: "s = ip @ ex \<and> fp = []"
    with ne have "ip \<noteq> []" by simp
    from scan_decimal_int [OF ip this st] a m e x0 show ?thesis
      by (simp add: scan_exponent_part [OF ex])
  next
    assume a: "s = ip @ CHR ''.'' # fp @ ex"
    from st have "ex = [] \<or> \<not> is_digit (hd ex)" by auto
    from scan_decimal_frac [OF ip fp ne this] a m e x0 show ?thesis
      by (simp add: scan_exponent_part [OF ex])
  qed
qed

lemma scan_decimal_literal:
  assumes "scan_decimal s = Some (m, e, [])"
  shows "decimal_literal s m e"
proof -
  obtain ds1 r1 where s: "s = ds1 @ r1" and d1: "list_all is_digit ds1"
    and r1: "r1 = [] \<or> \<not> is_digit (hd r1)"
    using split_digits by blast
  show ?thesis
  proof (cases "r1 \<noteq> [] \<and> hd r1 = CHR ''.''")
    case True
    then obtain t where r1': "r1 = CHR ''.'' # t" by (cases r1) auto
    obtain ds2 r2 where t: "t = ds2 @ r2" and d2: "list_all is_digit ds2"
      and r2: "r2 = [] \<or> \<not> is_digit (hd r2)"
      using split_digits by blast
    have s': "s = ds1 @ CHR ''.'' # ds2 @ r2" using s r1' t by simp
    show ?thesis
    proof (cases "ds1 \<noteq> [] \<or> ds2 \<noteq> []")
      case False
      then have "s = CHR ''.'' # r2" using s' by simp
      with scan_decimal_dot [OF r2] assms show ?thesis by simp
    next
      case ne: True
      note sc = scan_decimal_frac [OF d1 d2 ne r2, folded s']
      show ?thesis
      proof (cases "scan_exponent r2")
        case None
        with sc assms have "r2 = []" "m = digits_val 10 (ds1 @ ds2)" "e = - int (length ds2)"
          by simp_all
        moreover have "exponent_part [] 0" by (simp add: exponent_part_def)
        ultimately show ?thesis
          unfolding decimal_literal_def using d1 d2 ne s' by (intro exI [of _ ds1] exI [of _ ds2] exI [of _ "[]"] exI [of _ 0]) simp
      next
        case (Some p)
        then obtain x r3 where p: "scan_exponent r2 = Some (x, r3)" by (cases p) simp
        with sc assms have r3: "r3 = []" and m: "m = digits_val 10 (ds1 @ ds2)"
          and e: "e = x - int (length ds2)"
          by simp_all
        from p r3 scan_exponent_whole have "exponent_part r2 x" by blast
        then show ?thesis
          unfolding decimal_literal_def using d1 d2 ne s' m e
          by (intro exI [of _ ds1] exI [of _ ds2] exI [of _ r2] exI [of _ x]) simp
      qed
    qed
  next
    case False
    with r1 have r1'': "r1 = [] \<or> (\<not> is_digit (hd r1) \<and> hd r1 \<noteq> CHR ''.'')" by auto
    show ?thesis
    proof (cases "ds1 = []")
      case True
      with s have "s = r1" by simp
      with scan_decimal_other [OF r1''] assms show ?thesis by simp
    next
      case ne: False
      note sc = scan_decimal_int [OF d1 ne r1'', folded s]
      show ?thesis
      proof (cases "scan_exponent r1")
        case None
        with sc assms have "r1 = []" "m = digits_val 10 ds1" "e = 0"
          by simp_all
        moreover have "exponent_part [] 0" by (simp add: exponent_part_def)
        ultimately show ?thesis
          unfolding decimal_literal_def using d1 ne s
          by (intro exI [of _ ds1] exI [of _ "[]"] exI [of _ "[]"] exI [of _ 0]) simp
      next
        case (Some p)
        then obtain x r3 where p: "scan_exponent r1 = Some (x, r3)" by (cases p) simp
        with sc assms have r3: "r3 = []" and m: "m = digits_val 10 ds1" and e: "e = x"
          by simp_all
        from p r3 scan_exponent_whole have "exponent_part r1 x" by blast
        then show ?thesis
          unfolding decimal_literal_def using d1 ne s m e
          by (intro exI [of _ ds1] exI [of _ "[]"] exI [of _ r1] exI [of _ x]) simp
      qed
    qed
  qed
qed

lemma scan_decimal_literal_iff:
  "scan_decimal s = Some (m, e, []) \<longleftrightarrow> decimal_literal s m e"
  using decimal_literal_scan scan_decimal_literal by blast

lemma class_of_finite: "class_of m e = CFin \<longleftrightarrow> finite_value m e"
proof (cases "0 \<le> e")
  case True
  have "finite_value m e = (of_int m * (10::rat) ^ nat e < of_int overflow_bound)"
    using True by (simp add: finite_value_def power_int_def)
  also have "of_int m * (10::rat) ^ nat e = of_int (m * 10 ^ nat e)"
    by simp
  also have "(of_int (m * 10 ^ nat e) < (of_int overflow_bound :: rat))
      = (m * 10 ^ nat e < overflow_bound)"
    by (rule of_int_less_iff)
  also have "\<dots> = (class_of m e = CFin)"
    using True by (simp add: class_of_def not_le)
  finally show ?thesis by simp
next
  case False
  have p: "(0::rat) < 10 ^ nat (- e)" by simp
  have "finite_value m e = (of_int m * (1 / (10::rat)) ^ nat (- e) < of_int overflow_bound)"
    using False by (simp add: finite_value_def power_int_def)
  also have "(1 / (10::rat)) ^ nat (- e) = 1 / 10 ^ nat (- e)"
    by (rule power_one_over)
  also have "(of_int m * (1 / (10::rat) ^ nat (- e)) < of_int overflow_bound)
      = (of_int m / (10::rat) ^ nat (- e) < of_int overflow_bound)"
    by simp
  also have "\<dots> = (of_int m < of_int overflow_bound * (10::rat) ^ nat (- e))"
    using p by (rule pos_divide_less_eq)
  also have "of_int overflow_bound * (10::rat) ^ nat (- e) = of_int (overflow_bound * 10 ^ nat (- e))"
    by simp
  also have "((of_int m :: rat) < of_int (overflow_bound * 10 ^ nat (- e)))
      = (m < overflow_bound * 10 ^ nat (- e))"
    by (rule of_int_less_iff)
  also have "\<dots> = (class_of m e = CFin)"
    using False by (simp add: class_of_def not_le)
  finally show ?thesis by simp
qed

lemma class_of_not_NaN [simp]: "class_of m e \<noteq> CNaN"
  by (simp add: class_of_def)

lemma decimal_literal_start:
  assumes "decimal_literal u m e"
  shows "u \<noteq> [] \<and> (is_digit (hd u) \<or> hd u = CHR ''.'')"
proof -
  from assms obtain ip fp ex where ip: "list_all is_digit ip"
    and ne: "ip \<noteq> [] \<or> fp \<noteq> []"
    and s: "(u = ip @ ex \<and> fp = []) \<or> u = ip @ CHR ''.'' # fp @ ex"
    unfolding decimal_literal_def by blast
  show ?thesis
  proof (cases ip)
    case Nil
    with ne s show ?thesis by auto
  next
    case (Cons d ds)
    with ip s show ?thesis by auto
  qed
qed

lemma strip_sign_decimal: "decimal_literal u m e \<Longrightarrow> strip_sign u = u"
  using decimal_literal_start [of u m e] by (auto simp: strip_sign_def)

lemma signed_decimal_iff:
  "(\<exists>u. (s = u \<or> s = CHR ''+'' # u \<or> s = CHR ''-'' # u) \<and> decimal_literal u m e)
     \<longleftrightarrow> decimal_literal (strip_sign s) m e"
proof
  assume "\<exists>u. (s = u \<or> s = CHR ''+'' # u \<or> s = CHR ''-'' # u) \<and> decimal_literal u m e"
  then obtain u where u: "s = u \<or> s = CHR ''+'' # u \<or> s = CHR ''-'' # u"
    and d: "decimal_literal u m e" by blast
  from u have "strip_sign s = u"
    using strip_sign_decimal [OF d] by (auto simp: strip_sign_def)
  with d show "decimal_literal (strip_sign s) m e" by simp
next
  assume d: "decimal_literal (strip_sign s) m e"
  have "s = strip_sign s \<or> s = CHR ''+'' # strip_sign s \<or> s = CHR ''-'' # strip_sign s"
    by (cases s) (auto simp: strip_sign_def)
  with d show "\<exists>u. (s = u \<or> s = CHR ''+'' # u \<or> s = CHR ''-'' # u) \<and> decimal_literal u m e"
    by blast
qed

lemma radix_integer_Cons: "radix_integer s v \<Longrightarrow> \<exists>c1 ds. s = CHR ''0'' # c1 # ds"
  unfolding radix_integer_def by blast

lemma radix_literal_Cons: "radix_literal s = Some c \<Longrightarrow> \<exists>c1 ds. s = CHR ''0'' # c1 # ds"
  unfolding radix_literal_def by (simp split: list.splits if_splits)

lemma radix_literal_shape:
  "(radix_literal (CHR ''0'' # c1 # ds) = Some c \<longrightarrow>
      (\<exists>v. radix_integer (CHR ''0'' # c1 # ds) v) \<and>
      (\<forall>v. radix_integer (CHR ''0'' # c1 # ds) v \<longrightarrow> c = class_of v 0)) \<and>
   (radix_literal (CHR ''0'' # c1 # ds) = None \<longrightarrow>
      (\<forall>v. \<not> radix_integer (CHR ''0'' # c1 # ds) v))"
proof -
  define hx where "hx \<longleftrightarrow> c1 = CHR ''x'' \<or> c1 = CHR ''X''"
  define ox where "ox \<longleftrightarrow> c1 = CHR ''o'' \<or> c1 = CHR ''O''"
  define bx where "bx \<longleftrightarrow> c1 = CHR ''b'' \<or> c1 = CHR ''B''"
  have l: "radix_literal (CHR ''0'' # c1 # ds) =
           (if ds \<noteq> [] then
              (if hx \<and> list_all is_hex_digit ds then Some (class_of (digits_val 16 ds) 0)
               else if ox \<and> list_all is_octal_digit ds then Some (class_of (digits_val 8 ds) 0)
               else if bx \<and> list_all is_binary_digit ds then Some (class_of (digits_val 2 ds) 0)
               else None)
            else None)"
    unfolding radix_literal_def hx_def ox_def bx_def by (simp only: list.case simp_thms)
  have i: "radix_integer (CHR ''0'' # c1 # ds) v =
           (ds \<noteq> [] \<and>
            ((hx \<and> list_all is_hex_digit ds \<and> v = digits_val 16 ds) \<or>
             (ox \<and> list_all is_octal_digit ds \<and> v = digits_val 8 ds) \<or>
             (bx \<and> list_all is_binary_digit ds \<and> v = digits_val 2 ds)))" for v
    unfolding radix_integer_def hx_def ox_def bx_def by (simp only: list.inject) blast
  have excl: "\<not> (hx \<and> ox)" "\<not> (hx \<and> bx)" "\<not> (ox \<and> bx)"
    unfolding hx_def ox_def bx_def by auto
  show ?thesis
    unfolding l i using excl by (auto split: if_splits)
qed

lemma radix_literal_Some:
  assumes "radix_literal s = Some c"
  shows "(\<exists>v. radix_integer s v) \<and> (\<forall>v. radix_integer s v \<longrightarrow> c = class_of v 0)"
proof -
  from radix_literal_Cons [OF assms] obtain c1 ds where s: "s = CHR ''0'' # c1 # ds" by blast
  from assms radix_literal_shape [of c1 ds c] show ?thesis unfolding s by blast
qed

lemma radix_literal_None:
  assumes "radix_literal s = None"
  shows "\<not> radix_integer s v"
proof
  assume r: "radix_integer s v"
  from radix_integer_Cons [OF r] obtain c1 ds where s: "s = CHR ''0'' # c1 # ds" by blast
  from assms r radix_literal_shape [of c1 ds] show False unfolding s by blast
qed

lemma radix_integer_scan:
  assumes "radix_integer s v" and "w = w"
  shows "strip_sign (s @ w) = s @ w \<and> (\<exists>r. r \<noteq> [] \<and> scan_decimal (s @ w) = Some (0, 0, r))"
proof -
  from assms(1) obtain c ds where s: "s = CHR ''0'' # c # ds"
    and c: "c = CHR ''x'' \<or> c = CHR ''X'' \<or> c = CHR ''o'' \<or> c = CHR ''O'' \<or> c = CHR ''b'' \<or> c = CHR ''B''"
    unfolding radix_integer_def by blast
  have d0: "list_all is_digit ''0''" by (simp add: is_digit_def)
  have rest: "c # ds @ w = [] \<or> (\<not> is_digit (hd (c # ds @ w)) \<and> hd (c # ds @ w) \<noteq> CHR ''.'')"
    using c by (auto simp: is_digit_def)
  have ex: "scan_exponent (c # ds @ w) = None"
    using c by (auto simp: scan_exponent_def)
  have "scan_decimal (''0'' @ (c # ds @ w)) = Some (digits_val 10 ''0'', 0, c # ds @ w)"
    using scan_decimal_int [OF d0 _ rest] ex by simp
  moreover have "digits_val 10 ''0'' = 0" by (simp add: digits_val_def digit_val_def)
  ultimately have "scan_decimal (s @ w) = Some (0, 0, c # ds @ w)"
    using s by simp
  moreover have "strip_sign (s @ w) = s @ w" using s by (simp add: strip_sign_def)
  ultimately show ?thesis by blast
qed

lemma radix_not_decimal:
  assumes "radix_integer s v"
  shows "\<not> decimal_literal (strip_sign s) m e"
proof
  assume "decimal_literal (strip_sign s) m e"
  then have "scan_decimal (strip_sign s) = Some (m, e, [])" by (rule decimal_literal_scan)
  with radix_integer_scan [OF assms, of "[]"] show False by auto
qed

lemma numeric_string_iff:
  "numeric_string s \<longleftrightarrow>
     (\<exists>m e. decimal_literal (strip_sign s) m e \<and> finite_value m e) \<or>
     (\<exists>v. radix_integer s v \<and> finite_value v 0)"
  unfolding numeric_string_def using signed_decimal_iff by blast

lemma StringToNumber_chars_finite:
  "StringToNumber_chars s = CFin \<longleftrightarrow> s = [] \<or> numeric_string s"
proof (cases "s = []")
  case True
  then show ?thesis by (simp add: StringToNumber_chars_def)
next
  case ne: False
  show ?thesis
  proof (cases "radix_literal s")
    case (Some c)
    from radix_literal_Some [OF Some] obtain v where v: "radix_integer s v"
      and all: "\<And>v'. radix_integer s v' \<Longrightarrow> c = class_of v' 0" by blast
    have "(c = CFin) = (\<exists>v'. radix_integer s v' \<and> finite_value v' 0)"
      using v all class_of_finite by metis
    moreover have "\<not> (\<exists>m e. decimal_literal (strip_sign s) m e \<and> finite_value m e)"
      using radix_not_decimal [OF v] by blast
    moreover have "StringToNumber_chars s = c"
      using ne Some by (simp add: StringToNumber_chars_def)
    ultimately show ?thesis
      using ne unfolding numeric_string_iff by blast
  next
    case None
    have nr: "\<not> (\<exists>v. radix_integer s v \<and> finite_value v 0)"
      using radix_literal_None [OF None] by blast
    show ?thesis
    proof (cases "strip_sign s = ''Infinity''")
      case True
      have "\<not> decimal_literal ''Infinity'' m e" for m e
        using decimal_literal_start [of "''Infinity''" m e] by (auto simp: is_digit_def)
      then have "\<not> (\<exists>m e. decimal_literal (strip_sign s) m e \<and> finite_value m e)"
        using True by simp
      moreover have "StringToNumber_chars s = CInf"
        using True ne None by (simp add: StringToNumber_chars_def)
      ultimately show ?thesis
        using nr ne unfolding numeric_string_iff by simp
    next
      case False
      have "(case scan_decimal (strip_sign s) of
               Some (m, e, []) \<Rightarrow> class_of m e
             | _ \<Rightarrow> CNaN) = CFin
          \<longleftrightarrow> (\<exists>m e. scan_decimal (strip_sign s) = Some (m, e, []) \<and> class_of m e = CFin)"
        by (auto split: option.splits prod.splits list.splits)
      also have "\<dots> \<longleftrightarrow> (\<exists>m e. decimal_literal (strip_sign s) m e \<and> finite_value m e)"
        by (simp add: scan_decimal_literal_iff class_of_finite)
      finally have "StringToNumber_chars s = CFin
          \<longleftrightarrow> (\<exists>m e. decimal_literal (strip_sign s) m e \<and> finite_value m e)"
        using False ne None by (simp add: StringToNumber_chars_def)
      then show ?thesis
        using nr ne unfolding numeric_string_iff by blast
    qed
  qed
qed

lemma decimal_literal_ext:
  assumes "decimal_literal u m e" and "w = [] \<or> (\<not> is_digit (hd w) \<and> hd w \<noteq> CHR ''.'')"
  shows "scan_decimal (u @ w) \<noteq> None"
proof -
  from assms(1) obtain ip fp ex x where ip: "list_all is_digit ip" and fp: "list_all is_digit fp"
    and ne: "ip \<noteq> [] \<or> fp \<noteq> []" and ex: "exponent_part ex x"
    and s: "(u = ip @ ex \<and> fp = []) \<or> u = ip @ CHR ''.'' # fp @ ex"
    unfolding decimal_literal_def by blast
  have rest: "ex @ w = [] \<or> (\<not> is_digit (hd (ex @ w)) \<and> hd (ex @ w) \<noteq> CHR ''.'')"
    using exponent_part_start [OF ex] assms(2) by (cases ex) auto
  from s show ?thesis
  proof
    assume a: "u = ip @ ex \<and> fp = []"
    with ne have "ip \<noteq> []" by simp
    from scan_decimal_int [OF ip this rest] a show ?thesis
      by (simp split: option.splits)
  next
    assume a: "u = ip @ CHR ''.'' # fp @ ex"
    from rest have "ex @ w = [] \<or> \<not> is_digit (hd (ex @ w))" by auto
    from scan_decimal_frac [OF ip fp ne this] a show ?thesis
      by (simp split: option.splits)
  qed
qed

lemma parseFloat_chars_numeric:
  assumes "numeric_string s" and "w = [] \<or> (\<not> is_digit (hd w) \<and> hd w \<noteq> CHR ''.'')"
  shows "parseFloat_chars (s @ w) \<noteq> CNaN"
proof -
  have "scan_decimal (strip_sign (s @ w)) \<noteq> None"
    using assms(1) unfolding numeric_string_iff
  proof (elim disjE exE conjE)
    fix m e assume d: "decimal_literal (strip_sign s) m e"
    from decimal_literal_start [OF d] have "strip_sign s \<noteq> []" by simp
    then have "strip_sign (s @ w) = strip_sign s @ w"
      by (cases s) (auto simp: strip_sign_def)
    with decimal_literal_ext [OF d assms(2)] show ?thesis by simp
  next
    fix v assume "radix_integer s v"
    from radix_integer_scan [OF this, of w] show ?thesis by auto
  qed
  then show ?thesis
    by (auto simp: parseFloat_chars_def Let_def split: option.splits)
qed

lemma not_numeric_Nil: "\<not> numeric_string []"
  using decimal_literal_start [of "[]"]
  by (auto simp: numeric_string_iff strip_sign_def radix_integer_def)

lemma ws_not_digit: "is_ws c \<Longrightarrow> \<not> is_digit c \<and> c \<noteq> CHR ''.''"
  by (auto simp: is_ws_def is_digit_def)

lemma drop_trim:
  "\<exists>w. dropWhile is_ws_t t = trim t @ w \<and> list_all is_ws_t w"
proof (intro exI conjI)
  let ?d = "dropWhile is_ws_t t"
  have "?d = rev (takeWhile is_ws_t (rev ?d) @ dropWhile is_ws_t (rev ?d))"
    by (simp only: takeWhile_dropWhile_id rev_rev_ident)
  also have "\<dots> = rev (dropWhile is_ws_t (rev ?d)) @ rev (takeWhile is_ws_t (rev ?d))"
    by (rule rev_append)
  finally show "?d = trim t @ rev (takeWhile is_ws_t (rev ?d))"
    unfolding trim_def .
  show "list_all is_ws_t (rev (takeWhile is_ws_t (rev ?d)))"
    by (simp add: list_all_iff) (meson set_takeWhileD)
qed

lemma drop_no_ws: "dropWhile is_ws_t t = [] \<or> \<not> is_ws_t (hd (dropWhile is_ws_t t))"
  by (metis hd_dropWhile)

lemma ch_prefix_chars: "ch_prefix (chars s @ w) = s @ ch_prefix w"
  by (induction s) (simp_all add: chars_def)

lemma ch_prefix_ws:
  "list_all is_ws_t w \<Longrightarrow>
   ch_prefix w = [] \<or> (\<not> is_digit (hd (ch_prefix w)) \<and> hd (ch_prefix w) \<noteq> CHR ''.'')"
proof (cases w)
  case Nil
  then show ?thesis by simp
next
  case (Cons x xs)
  assume "list_all is_ws_t w"
  with Cons show ?thesis by (cases x) (auto dest: ws_not_digit)
qed

lemma all_ch_chars:
  "list_all (\<lambda>x. un_ch x \<noteq> None) u \<Longrightarrow> u = chars (map (\<lambda>x. the (un_ch x)) u)"
proof (induction u)
  case Nil
  show ?case by (simp add: chars_def)
next
  case (Cons x u)
  then show ?case by (cases x) (simp_all add: chars_def)
qed

lemma chars_all_ch: "list_all (\<lambda>x. un_ch x \<noteq> None) (chars s)"
  by (simp add: chars_def list_all_iff)

lemma un_chars: "map (\<lambda>x. the (un_ch x)) (chars s) = s"
  by (induction s) (simp_all add: chars_def)

lemma chars_inj: "chars s = chars s' \<Longrightarrow> s = s'"
  by (metis un_chars)

lemma StringToNumber_chars_text:
  "trim t = chars s \<Longrightarrow> StringToNumber t = StringToNumber_chars s"
proof -
  assume a: "trim t = chars s"
  have s: "s = map (\<lambda>x. the (un_ch x)) (trim t)" using a un_chars by metis
  have "list_all (\<lambda>x. un_ch x \<noteq> None) (trim t)" using a chars_all_ch by metis
  then show ?thesis
    unfolding StringToNumber_def Let_def s
    by (auto split: list.splits tchar.splits)
qed

lemma text_finite_iff:
  "(parseFloat_text t \<noteq> CNaN \<and> StringToNumber t = CFin) \<longleftrightarrow>
     ((\<exists>r. trim t = [NumLit r]) \<or> (\<exists>s. trim t = chars s \<and> numeric_string s))"
proof -
  obtain w where d: "dropWhile is_ws_t t = trim t @ w" and w: "list_all is_ws_t w"
    using drop_trim by blast
  show ?thesis
  proof (cases "\<exists>r. trim t = [NumLit r]")
    case True
    then obtain r where r: "trim t = [NumLit r]" by blast
    have "parseFloat_text t = CFin" by (simp add: parseFloat_text_def d r)
    moreover have "StringToNumber t = CFin" by (simp add: StringToNumber_def r)
    ultimately show ?thesis using True by simp
  next
    case notnum: False
    show ?thesis
    proof (cases "list_all (\<lambda>x. un_ch x \<noteq> None) (trim t)")
      case True
      define s where "s = map (\<lambda>x. the (un_ch x)) (trim t)"
      have ts: "trim t = chars s" unfolding s_def using True by (rule all_ch_chars)
      have n: "StringToNumber t = StringToNumber_chars s"
        using ts by (rule StringToNumber_chars_text)
      have rhs: "((\<exists>r. trim t = [NumLit r]) \<or> (\<exists>s'. trim t = chars s' \<and> numeric_string s'))
          = numeric_string s"
        using notnum ts chars_inj by auto
      show ?thesis
      proof (cases "numeric_string s")
        case True
        then have sne: "s \<noteq> []" using not_numeric_Nil by auto
        have dd: "dropWhile is_ws_t t = chars s @ w" using d ts by simp
        have "parseFloat_text t = parseFloat_chars (ch_prefix (chars s @ w))"
          unfolding parseFloat_text_def dd using sne
          by (cases s) (simp_all add: chars_def)
        also have "\<dots> = parseFloat_chars (s @ ch_prefix w)" by (simp add: ch_prefix_chars)
        finally have "parseFloat_text t \<noteq> CNaN"
          using parseFloat_chars_numeric [OF True ch_prefix_ws [OF w]] by simp
        moreover have "StringToNumber t = CFin"
          using n True by (simp add: StringToNumber_chars_finite)
        ultimately show ?thesis using rhs True by simp
      next
        case False
        show ?thesis
        proof (cases "s = []")
          case True
          with d ts have "dropWhile is_ws_t t = w" by (simp add: chars_def)
          with drop_no_ws [of t] w have e: "dropWhile is_ws_t t = []"
            by (cases w) auto
          have "parseFloat_text t = CNaN"
            unfolding parseFloat_text_def e
            by (simp add: parseFloat_chars_def strip_sign_def is_prefix_def
                scan_decimal_def scan_exponent_def)
          with rhs False show ?thesis by simp
        next
          case ne: False
          with n False have "StringToNumber t \<noteq> CFin"
            by (simp add: StringToNumber_chars_finite)
          with rhs False show ?thesis by simp
        qed
      qed
    next
      case False
      then have "\<not> (\<exists>s. trim t = chars s)" using chars_all_ch by metis
      moreover have "StringToNumber t = CNaN"
        using False notnum unfolding StringToNumber_def Let_def
        by (auto split: list.splits tchar.splits)
      ultimately show ?thesis using notnum by simp
    qed
  qed
qed

section \<open>Properties of the Deal Validator\<close>

lemma get_prop_field: "x \<noteq> Null \<Longrightarrow> get_prop x k = Inr (field x k)"
  by (cases x) (simp_all add: field_def)

lemma get_prop_Null_iff: "(\<exists>e. get_prop x k = Inl e) \<longleftrightarrow> x = Null"
  by (cases x) simp_all

lemma isDealValid_field:
  "deal \<noteq> Null \<Longrightarrow>
   isDealValid deal =
     Inr (field deal ''storeID'' \<noteq> Some Null \<and> field deal ''storeID'' \<noteq> Some (Str []) \<and>
          field deal ''price'' \<noteq> Some Null \<and> field deal ''price'' \<noteq> Some (Str []))"
  by (simp add: isDealValid_def get_prop_field)

lemma validateDealAttributes_ok:
  "list_all deal_ok ds \<Longrightarrow> validateDealAttributes ds = Inr ()"
  by (induction ds) (simp_all add: deal_ok_def isDealValid_field get_prop_field)

lemma set_has_imp_mem: "set_has S v \<Longrightarrow> v \<in> set S"
  by (auto simp: set_has_def list_ex_iff same_value_zero_def)

lemma unique_loop_distinct:
  "Null \<notin> set ds \<Longrightarrow> distinct (map (\<lambda>d. field d ''storeID'') ds) \<Longrightarrow>
   set S \<inter> set (map (\<lambda>d. field d ''storeID'') ds) = {} \<Longrightarrow>
   unique_loop S ds = Inr True"
proof (induction ds arbitrary: S)
  case Nil
  show ?case by simp
next
  case (Cons d ds)
  from Cons.prems have d: "d \<noteq> Null" and notin: "field d ''storeID'' \<notin> set S"
    by auto
  from notin have nh: "\<not> set_has S (field d ''storeID'')"
    using set_has_imp_mem by blast
  have "unique_loop (S @ [field d ''storeID'']) ds = Inr True"
    using Cons.prems by (intro Cons.IH) auto
  with d nh show ?case
    by (simp add: get_prop_field)
qed

lemma map_deals_normalized:
  "Null \<notin> set ds \<Longrightarrow> map_deals ds = Inr (map normalized ds)"
  by (induction ds) (auto simp: get_prop_field normalized_def)

lemma deal_ok_not_Null: "list_all deal_ok ds \<Longrightarrow> Null \<notin> set ds"
  by (auto simp: list_all_iff deal_ok_def)

text \<open>
  C1: a non-empty array of deals, each with a storeID and a price that are neither
  \<^verbatim>\<open>null\<close> nor the empty string, the price passing the numeric check, and the storeIDs
  pairwise different, is accepted, and the result is the list of \<^verbatim>\<open>{storeID, price}\<close> of
  the entries, in their order and of the same length.
\<close>

theorem validateDeals_accepts:
  assumes "ds \<noteq> []"
    and "list_all deal_ok ds"
    and "distinct (map (\<lambda>d. field d ''storeID'') ds)"
  shows "validateDeals (Some (Arr ds)) = Inr (map normalized ds)
         \<and> length (map normalized ds) = length ds
         \<and> (\<forall>i < length ds. map normalized ds ! i =
               \<lparr>storeID = field (ds ! i) ''storeID'', price = field (ds ! i) ''price''\<rparr>)"
proof -
  have nn: "Null \<notin> set ds"
    using assms(2) by (rule deal_ok_not_Null)
  have u: "hasUniqueStoreIDs ds = Inr True"
    unfolding hasUniqueStoreIDs_def using nn assms(3) by (intro unique_loop_distinct) auto
  have "validateDeals (Some (Arr ds)) = Inr (map normalized ds)"
    using assms(1) validateDealAttributes_ok [OF assms(2)] u map_deals_normalized [OF nn]
    by (simp add: validateDeals_def)
  then show ?thesis
    by (simp add: normalized_def)
qed

theorem validateDeals_accepts_witness:
  "validateDeals (Some (Arr [Obj [(''storeID'', Str ''1''), (''price'', Str ''9.99'')],
                            Obj [(''storeID'', Str ''2''), (''price'', Str ''4.99'')]]))
   = Inr [\<lparr>storeID = Some (Str ''1''), price = Some (Str ''9.99'')\<rparr>,
          \<lparr>storeID = Some (Str ''2''), price = Some (Str ''4.99'')\<rparr>]"
proof -
  let ?ds = "[Obj [(''storeID'', Str ''1''), (''price'', Str ''9.99'')],
              Obj [(''storeID'', Str ''2''), (''price'', Str ''4.99'')]]"
  have h1: "?ds \<noteq> []" by simp
  have h2: "list_all deal_ok ?ds" by code_simp
  have h3: "distinct (map (\<lambda>d. field d ''storeID'') ?ds)" by (simp add: field_def)
  show ?thesis
    using validateDeals_accepts [OF h1 h2 h3] by (simp add: normalized_def field_def)
qed

lemma set_has_iff: "set_has S v \<longleftrightarrow> v \<in> set S \<and> \<not> is_ref v"
  by (auto simp: set_has_def list_ex_iff same_value_zero_def)

lemma unique_loop_char:
  "Null \<notin> set ds \<Longrightarrow>
   unique_loop S ds =
     Inr (distinct (prims (storeIDs ds)) \<and> set (prims (storeIDs ds)) \<inter> set S = {})"
proof (induction ds arbitrary: S)
  case Nil
  show ?case by (simp add: prims_def storeIDs_def)
next
  case (Cons d ds)
  let ?v = "field d ''storeID''"
  from Cons.prems have d: "d \<noteq> Null" and nn: "Null \<notin> set ds" by auto
  show ?case
  proof (cases "set_has S ?v")
    case True
    then have "?v \<in> set (prims (storeIDs (d # ds))) \<inter> set S"
      by (simp add: set_has_iff prims_def storeIDs_def)
    then have "set (prims (storeIDs (d # ds))) \<inter> set S \<noteq> {}" by blast
    with True d show ?thesis by (simp add: get_prop_field)
  next
    case False
    have ih: "unique_loop (S @ [?v]) ds =
        Inr (distinct (prims (storeIDs ds)) \<and> set (prims (storeIDs ds)) \<inter> set (S @ [?v]) = {})"
      using nn by (rule Cons.IH)
    have refs: "is_ref ?v \<Longrightarrow> ?v \<notin> set (prims (storeIDs ds))"
      by (simp add: prims_def)
    from False have "is_ref ?v \<or> ?v \<notin> set S" by (auto simp: set_has_iff)
    then have "(distinct (prims (storeIDs ds)) \<and> set (prims (storeIDs ds)) \<inter> set (S @ [?v]) = {})
        = (distinct (prims (storeIDs (d # ds))) \<and> set (prims (storeIDs (d # ds))) \<inter> set S = {})"
      using refs by (auto simp: prims_def storeIDs_def)
    with False d ih show ?thesis by (simp add: get_prop_field)
  qed
qed

lemma validateDeals_char:
  assumes "ds \<noteq> []" and "list_all deal_ok ds"
  shows "validateDeals (Some (Arr ds)) =
           (if distinct (prims (storeIDs ds)) then Inr (map normalized ds) else Inl DuplicateStoreID)"
proof -
  have nn: "Null \<notin> set ds" using assms(2) by (rule deal_ok_not_Null)
  have "hasUniqueStoreIDs ds = Inr (distinct (prims (storeIDs ds)))"
    unfolding hasUniqueStoreIDs_def by (simp add: unique_loop_char [OF nn])
  then show ?thesis
    using assms(1) validateDealAttributes_ok [OF assms(2)] map_deals_normalized [OF nn]
    by (simp add: validateDeals_def)
qed

lemma prims_dup:
  assumes "i < j" "j < length vs" "vs ! i = vs ! j" "\<not> is_ref (vs ! i)"
  shows "\<not> distinct (prims vs)"
proof -
  let ?x = "vs ! j"
  have "take j vs ! i = vs ! i" using assms(1) by simp
  moreover have "i < length (take j vs)" using assms(1,2) by simp
  ultimately have "vs ! i \<in> set (take j vs)" by (metis nth_mem)
  then have mem: "?x \<in> set (prims (take j vs))"
    using assms(3,4) by (simp add: prims_def)
  have "vs = take j vs @ ?x # drop (Suc j) vs"
    using assms(2) by (rule id_take_nth_drop)
  then have "prims vs = prims (take j vs @ ?x # drop (Suc j) vs)" by simp
  also have "\<dots> = prims (take j vs) @ ?x # prims (drop (Suc j) vs)"
    using assms(3,4) by (simp add: prims_def)
  finally show ?thesis using mem by simp
qed

text \<open>
  C6, as the code has it: the attribute checks of every entry come first, so a repeated
  storeID is reported when all entries pass them; and a \<^verbatim>\<open>Set\<close> finds a storeID again
  when it is a primitive (a string, a number, a boolean, \<^verbatim>\<open>undefined\<close>), not when it is an
  array or an object. Then two entries with the same storeID make the validator fail with
  \<open>DuplicateStoreID\<close>.
\<close>

theorem validateDeals_duplicate:
  assumes "list_all deal_ok ds"
    and "i < j" and "j < length ds"
    and "field (ds ! i) ''storeID'' = field (ds ! j) ''storeID''"
    and "\<not> is_ref (field (ds ! i) ''storeID'')"
  shows "validateDeals (Some (Arr ds)) = Inl DuplicateStoreID"
proof -
  have ne: "ds \<noteq> []" using assms(3) by auto
  have "\<not> distinct (prims (storeIDs ds))"
    using assms(2-5) by (intro prims_dup [of i j]) (simp_all add: storeIDs_def)
  then show ?thesis by (simp add: validateDeals_char [OF ne assms(1)])
qed

theorem validateDeals_duplicate_witness:
  "validateDeals (Some (Arr [Obj [(''storeID'', Str ''1''), (''price'', Str ''9.99'')],
                            Obj [(''storeID'', Str ''1''), (''price'', Str ''3.99'')]]))
   = Inl DuplicateStoreID"
proof -
  let ?ds = "[Obj [(''storeID'', Str ''1''), (''price'', Str ''9.99'')],
              Obj [(''storeID'', Str ''1''), (''price'', Str ''3.99'')]]"
  have h1: "list_all deal_ok ?ds" by code_simp
  have h2: "(0::nat) < 1" and h3: "1 < length ?ds" by simp_all
  have h4: "field (?ds ! 0) ''storeID'' = field (?ds ! 1) ''storeID''" by (simp add: field_def)
  have h5: "\<not> is_ref (field (?ds ! 0) ''storeID'')" by (simp add: field_def)
  show ?thesis
    using validateDeals_duplicate [OF h1 h2 h3 h4 h5] .
qed

text \<open>
  C6 as it is written fails: of two entries with the same storeID the second has a price
  that is not numeric, and the validator reports the price.
\<close>

theorem validateDeals_duplicate_counterexample:
  "field (Obj [(''storeID'', Str ''1''), (''price'', Str ''9.99'')]) ''storeID''
     = field (Obj [(''storeID'', Str ''1''), (''price'', Str ''abc'')]) ''storeID''
   \<and> validateDeals (Some (Arr [Obj [(''storeID'', Str ''1''), (''price'', Str ''9.99'')],
                                Obj [(''storeID'', Str ''1''), (''price'', Str ''abc'')]]))
       = Inl (NonNumericPrice (Some (Str ''abc'')))
   \<and> validateDeals (Some (Arr [Obj [(''storeID'', Str ''1''), (''price'', Str ''9.99'')],
                                Obj [(''storeID'', Str ''1''), (''price'', Str ''abc'')]]))
       \<noteq> Inl DuplicateStoreID"
  by code_simp

lemma get_prop_Inl: "get_prop x k = Inl e \<Longrightarrow> e = TypeError"
  by (cases x) simp_all

lemma isDealValid_Inl: "isDealValid d = Inl e \<Longrightarrow> e = TypeError"
  by (auto simp: isDealValid_def split: sum.splits dest: get_prop_Inl)

lemma collect_Inl:
  "collect rs = Inl e \<Longrightarrow> Inl e \<in> set rs"
  by (induction rs rule: collect.induct) (auto split: sum.splits)

lemma ToString_Inl: "ToString x = Inl e \<Longrightarrow> e = TypeError"
proof (induction x)
  case (Num n)
  then show ?case by (cases n) simp_all
next
  case (Arr xs)
  from Arr.prems have "Inl e \<in> set (map (\<lambda>x. if x = Null then Inr [] else ToString x) xs)"
    by (auto split: sum.splits dest: collect_Inl)
  then obtain x where "x \<in> set xs" "ToString x = Inl e"
    by (auto split: if_splits)
  then show ?case using Arr.IH by blast
qed (auto split: if_splits)

lemma ToNumber_Inl: "ToNumber v = Inl e \<Longrightarrow> e = TypeError"
  by (cases v rule: ToNumber.cases)
    (auto simp del: ToString.simps split: sum.splits dest: ToString_Inl)

lemma isNumerical_Inl: "isNumerical v = Inl e \<Longrightarrow> e = TypeError"
  by (cases v)
    (auto simp: isNumerical_def parseFloat_def ToString_val_def isFinite_def
      split: sum.splits if_splits dest: ToString_Inl ToNumber_Inl)

lemma validateDealAttributes_NonNumeric:
  "validateDealAttributes ds = Inl (NonNumericPrice p) \<Longrightarrow> isNumerical p = Inr False"
  by (induction ds)
    (auto split: sum.splits bool.splits if_splits dest: get_prop_Inl isDealValid_Inl isNumerical_Inl)

lemma validateDealAttributes_append:
  "list_all deal_ok pre \<Longrightarrow> validateDealAttributes (pre @ ds) = validateDealAttributes ds"
  by (induction pre) (simp_all add: deal_ok_def isDealValid_field get_prop_field)

lemma unique_loop_Inl: "unique_loop S ds = Inl e \<Longrightarrow> e = TypeError"
  by (induction ds arbitrary: S) (auto split: sum.splits if_splits dest: get_prop_Inl)

lemma map_deals_Inl: "map_deals ds = Inl e \<Longrightarrow> e = TypeError"
  by (induction ds) (auto split: sum.splits dest: get_prop_Inl)

lemma validateDeals_NonNumeric:
  "validateDeals v = Inl (NonNumericPrice p) \<Longrightarrow> isNumerical p = Inr False"
  by (auto simp: validateDeals_def hasUniqueStoreIDs_def
      split: option.splits json.splits if_splits sum.splits bool.splits
      dest: validateDealAttributes_NonNumeric unique_loop_Inl map_deals_Inl)

text \<open>The numeric check of the code computes the reading of the specification.\<close>

lemma isNumerical_text:
  assumes "ToString_val v = Inr t"
  shows "isNumerical v = Inr (parseFloat_text t \<noteq> CNaN \<and> StringToNumber t = CFin)"
proof (cases v)
  case None
  have "isNumerical None = Inr False" by code_simp
  moreover have "parseFloat_text (chars ''undefined'') = CNaN" by code_simp
  ultimately show ?thesis using assms None by (simp add: ToString_val_def)
next
  case (Some x)
  have other: ?thesis
    if "ToNumber (Some x) = (case ToString x of Inl e \<Rightarrow> Inl e | Inr t \<Rightarrow> Inr (StringToNumber t))"
    using that assms Some
    by (simp add: isNumerical_def parseFloat_def ToString_val_def isNaN_def isFinite_def
        del: ToString.simps ToNumber.simps)
  show ?thesis
  proof (cases x)
    case Null
    have "isNumerical (Some Null) = Inr False" by code_simp
    moreover have "parseFloat_text (chars ''null'') = CNaN" by code_simp
    ultimately show ?thesis using assms Some Null by (simp add: ToString_val_def)
  next
    case (Bool b)
    have "isNumerical (Some (Bool True)) = Inr False" "isNumerical (Some (Bool False)) = Inr False"
      by code_simp+
    then have "isNumerical (Some (Bool b)) = Inr False" by (cases b) simp_all
    moreover have "parseFloat_text (chars ''true'') = CNaN" "parseFloat_text (chars ''false'') = CNaN"
      by code_simp+
    then have "parseFloat_text (chars (if b then ''true'' else ''false'')) = CNaN" by simp
    ultimately show ?thesis using assms Some Bool by (simp add: ToString_val_def)
  next
    case (Num n)
    show ?thesis
    proof (cases n)
      case NaN
      have "isNumerical (Some (Num NaN)) = Inr False" by code_simp
      moreover have "parseFloat_text (chars ''NaN'') = CNaN" by code_simp
      ultimately show ?thesis using assms Some Num NaN by (simp add: ToString_val_def)
    next
      case PosInf
      have "isNumerical (Some (Num PosInf)) = Inr False" by code_simp
      moreover have "StringToNumber (chars ''Infinity'') = CInf" by code_simp
      ultimately show ?thesis using assms Some Num PosInf by (simp add: ToString_val_def)
    next
      case NegInf
      have "isNumerical (Some (Num NegInf)) = Inr False" by code_simp
      moreover have "StringToNumber (chars ''-Infinity'') = CInf" by code_simp
      ultimately show ?thesis using assms Some Num NegInf by (simp add: ToString_val_def)
    next
      case (Fin r)
      with assms Some Num have t: "t = [NumLit r]" by (simp add: ToString_val_def)
      show ?thesis
        unfolding Some Num Fin t
        by (simp add: isNumerical_def parseFloat_def ToString_val_def parseFloat_text_def
            isNaN_def isFinite_def StringToNumber_def trim_def)
    qed
  next
    case (Str s)
    show ?thesis by (rule other) (simp add: Str)
  next
    case (Arr xs)
    show ?thesis by (rule other) (simp add: Arr del: ToString.simps)
  next
    case (Obj kvs)
    show ?thesis by (rule other) (simp add: Obj del: ToString.simps)
  qed
qed

lemma isNumerical_parses:
  "isNumerical v =
     (case ToString_val v of Inl e \<Rightarrow> Inl e | Inr t \<Rightarrow> Inr (parses_as_finite_number v))"
proof (cases "ToString_val v")
  case (Inl e)
  then show ?thesis by (simp add: isNumerical_def parseFloat_def)
next
  case (Inr t)
  then show ?thesis
    by (simp add: isNumerical_text [OF Inr] parses_as_finite_number_def text_finite_iff)
qed

lemma ToString_val_cases:
  "ToString_val v \<noteq> Inl TypeError \<Longrightarrow> \<exists>t. ToString_val v = Inr t"
  by (cases "ToString_val v") (auto simp: ToString_val_def split: option.splits dest: ToString_Inl)

lemma parses_examples:
  "parses_as_finite_number (Some (Str ''9.99''))"
  "\<not> parses_as_finite_number (Some (Str ''Infinity''))"
  "\<not> parses_as_finite_number (Some (Str ''NaN''))"
  "\<not> parses_as_finite_number (Some (Str ''abc''))"
proof -
  have "isNumerical (Some (Str ''9.99'')) = Inr True"
    "isNumerical (Some (Str ''Infinity'')) = Inr False"
    "isNumerical (Some (Str ''NaN'')) = Inr False"
    "isNumerical (Some (Str ''abc'')) = Inr False"
    by code_simp+
  then show "parses_as_finite_number (Some (Str ''9.99''))"
    "\<not> parses_as_finite_number (Some (Str ''Infinity''))"
    "\<not> parses_as_finite_number (Some (Str ''NaN''))"
    "\<not> parses_as_finite_number (Some (Str ''abc''))"
    by (simp_all add: isNumerical_parses ToString_val_def)
qed

text \<open>
  C7, as the code has it: the conversion of the price to text can throw. For an entry whose
  storeID and price are neither \<^verbatim>\<open>null\<close> nor the empty string, reached after entries that
  pass, and whose price can be converted to text, the validator fails with
  \<open>NonNumericPrice\<close> of that price exactly when the price does not parse as a finite
  number; \<^verbatim>\<open>"9.99"\<close> parses, \<^verbatim>\<open>"Infinity"\<close>, \<^verbatim>\<open>"NaN"\<close> and \<^verbatim>\<open>"abc"\<close> do not.
\<close>

theorem validateDeals_NonNumericPrice:
  assumes "list_all deal_ok pre"
    and "deal \<noteq> Null"
    and "field deal ''storeID'' \<noteq> Some Null" and "field deal ''storeID'' \<noteq> Some (Str [])"
    and "field deal ''price'' \<noteq> Some Null" and "field deal ''price'' \<noteq> Some (Str [])"
    and "ToString_val (field deal ''price'') \<noteq> Inl TypeError"
  shows "((validateDeals (Some (Arr (pre @ deal # post))) = Inl (NonNumericPrice (field deal ''price'')))
           \<longleftrightarrow> \<not> parses_as_finite_number (field deal ''price''))
         \<and> parses_as_finite_number (Some (Str ''9.99''))
         \<and> \<not> parses_as_finite_number (Some (Str ''Infinity''))
         \<and> \<not> parses_as_finite_number (Some (Str ''NaN''))
         \<and> \<not> parses_as_finite_number (Some (Str ''abc''))"
proof -
  let ?p = "field deal ''price''"
  from ToString_val_cases [OF assms(7)] obtain t where t: "ToString_val ?p = Inr t" by blast
  have num: "isNumerical ?p = Inr (parses_as_finite_number ?p)"
    by (simp add: isNumerical_parses t)
  have a: "validateDeals (Some (Arr (pre @ deal # post))) = Inl (NonNumericPrice ?p)"
    if n: "\<not> parses_as_finite_number ?p"
  proof -
    have "validateDealAttributes (pre @ deal # post) = Inl (NonNumericPrice ?p)"
      using assms(1-6) n num
      by (simp add: validateDealAttributes_append isDealValid_field get_prop_field)
    then show ?thesis
      by (simp add: validateDeals_def)
  qed
  have b: "\<not> parses_as_finite_number ?p"
    if "validateDeals (Some (Arr (pre @ deal # post))) = Inl (NonNumericPrice ?p)"
    using validateDeals_NonNumeric [OF that] num by simp
  from a b parses_examples show ?thesis by blast
qed

theorem validateDeals_NonNumericPrice_witness:
  "validateDeals (Some (Arr [Obj [(''storeID'', Str ''1''), (''price'', Str ''abc'')]]))
     = Inl (NonNumericPrice (Some (Str ''abc'')))
   \<and> validateDeals (Some (Arr [Obj [(''storeID'', Str ''1''), (''price'', Str ''9.99'')]]))
     \<noteq> Inl (NonNumericPrice (Some (Str ''9.99'')))"
proof -
  have a: "validateDeals (Some (Arr [Obj [(''storeID'', Str ''1''), (''price'', Str ''abc'')]]))
     = Inl (NonNumericPrice (Some (Str ''abc'')))"
    using validateDeals_NonNumericPrice
      [of "[]" "Obj [(''storeID'', Str ''1''), (''price'', Str ''abc'')]" "[]"]
    by (simp add: field_def ToString_val_def)
  have b: "validateDeals (Some (Arr [Obj [(''storeID'', Str ''1''), (''price'', Str ''9.99'')]]))
     \<noteq> Inl (NonNumericPrice (Some (Str ''9.99'')))"
    using validateDeals_NonNumericPrice
      [of "[]" "Obj [(''storeID'', Str ''1''), (''price'', Str ''9.99'')]" "[]"]
    by (simp add: field_def ToString_val_def)
  from a b show ?thesis by simp
qed

text \<open>
  C7 as it is written fails for a price that is an object with a property \<^verbatim>\<open>toString\<close>:
  it does not parse as a number, and the validator fails with a \<open>TypeError\<close>, not with
  \<open>NonNumericPrice\<close>.
\<close>

theorem validateDeals_NonNumericPrice_counterexample:
  "\<not> parses_as_finite_number (Some (Obj [(''toString'', Str ''5'')]))
   \<and> validateDeals (Some (Arr [Obj [(''storeID'', Str ''1''),
                                     (''price'', Obj [(''toString'', Str ''5'')])]]))
       = Inl TypeError"
proof -
  have "\<not> parses_as_finite_number (Some (Obj [(''toString'', Str ''5'')]))"
    by (simp add: parses_as_finite_number_def ToString_val_def)
  moreover have "validateDeals (Some (Arr [Obj [(''storeID'', Str ''1''),
                                     (''price'', Obj [(''toString'', Str ''5'')])]]))
       = Inl TypeError"
    by code_simp
  ultimately show ?thesis by simp
qed

section \<open>Properties of the Game Attribute Validator\<close>

lemma falsy_cases: "(\<not> truthy v \<or> v = Some Null \<or> v = Some (Str [])) = (\<not> truthy v)"
  by auto

lemma isAttributeInvalid_required:
  "game \<noteq> Null \<Longrightarrow> attr \<in> set requiredAttributes \<Longrightarrow>
   isAttributeInvalid game attr = Inr (\<not> truthy (field game attr))"
  by (auto simp: isAttributeInvalid_def requiredAttributes_def get_prop_field)

lemma filter_invalid_missing:
  "game \<noteq> Null \<Longrightarrow> set attrs \<subseteq> set requiredAttributes \<Longrightarrow>
   filter_invalid game attrs = Inr (filter (\<lambda>attr. \<not> truthy (field game attr)) attrs)"
  by (induction attrs) (simp_all add: isAttributeInvalid_required)

lemma validateGameAttributes_char:
  assumes "game \<noteq> Null"
  shows "validateGameAttributes game =
           (case isNumerical (field game ''cheapestPrice'') of
              Inl e \<Rightarrow> Inl e
            | Inr numerical \<Rightarrow>
                if \<not> numerical then Inl (NonNumericCheapestPrice (field game ''cheapestPrice''))
                else if missing game \<noteq> [] then Inl (MissingRequiredAttributes (missing game))
                else Inr ())"
proof -
  have "filter_invalid game requiredAttributes = Inr (missing game)"
    unfolding missing_def using assms by (intro filter_invalid_missing) simp_all
  then show ?thesis
    using assms
    by (simp add: validateGameAttributes_def get_prop_field validateCheapestPrice_def
        split: sum.splits)
qed

text \<open>
  C2, as the code has it: \<^verbatim>\<open>validateCheapestPrice\<close> runs before the missing attributes are
  reported. For a payload whose cheapestPrice passes the numeric check and in which one of
  title, cheapestPrice, deals is falsy (\<^verbatim>\<open>undefined\<close>, \<^verbatim>\<open>null\<close>, \<^verbatim>\<open>false\<close>, the empty
  string, zero, \<^verbatim>\<open>NaN\<close>), the validator fails with \<open>MissingRequiredAttributes\<close> naming
  exactly the falsy ones. An empty list is truthy and is not named.
\<close>

theorem validateGameAttributes_missing:
  assumes "game \<noteq> Null"
    and "isNumerical (field game ''cheapestPrice'') = Inr True"
    and "\<not> truthy (field game ''title'') \<or> \<not> truthy (field game ''cheapestPrice'')
         \<or> \<not> truthy (field game ''deals'')"
  shows "validateGameAttributes game = Inl (MissingRequiredAttributes (missing game))
         \<and> set (missing game) =
             {attr \<in> {''title'', ''cheapestPrice'', ''deals''}. \<not> truthy (field game attr)}
         \<and> truthy (Some (Arr []))"
proof -
  have s: "set (missing game) =
      {attr \<in> {''title'', ''cheapestPrice'', ''deals''}. \<not> truthy (field game attr)}"
    by (auto simp: missing_def requiredAttributes_def)
  have "\<exists>attr \<in> set requiredAttributes. \<not> truthy (field game attr)"
    using assms(3) by (simp add: requiredAttributes_def)
  then have "missing game \<noteq> []"
    unfolding missing_def by (simp add: filter_empty_conv)
  with assms(1,2) s show ?thesis
    by (simp add: validateGameAttributes_char)
qed

theorem validateGameAttributes_missing_witness:
  "validateGameAttributes (Obj [(''cheapestPrice'', Num (Fin 0)), (''deals'', Arr [])])
     = Inl (MissingRequiredAttributes [''title'', ''cheapestPrice''])"
proof -
  let ?g = "Obj [(''cheapestPrice'', Num (Fin 0)), (''deals'', Arr [])]"
  have h1: "?g \<noteq> Null" by simp
  have h2: "isNumerical (field ?g ''cheapestPrice'') = Inr True" by code_simp
  have h3: "\<not> truthy (field ?g ''title'') \<or> \<not> truthy (field ?g ''cheapestPrice'')
         \<or> \<not> truthy (field ?g ''deals'')" by (simp add: field_def)
  have m: "missing ?g = [''title'', ''cheapestPrice'']" by code_simp
  show ?thesis
    using validateGameAttributes_missing [OF h1 h2 h3] m by simp
qed

text \<open>
  C2 as it is written fails when the missing attribute is cheapestPrice itself: the
  numeric check rejects \<^verbatim>\<open>undefined\<close> first.
\<close>

theorem validateGameAttributes_counterexample:
  "\<not> truthy (field (Obj [(''title'', Str ''Portal''),
                          (''deals'', Arr [Obj [(''storeID'', Str ''1''), (''price'', Str ''9.99'')]])])
                    ''cheapestPrice'')
   \<and> validateGameAttributes
        (Obj [(''title'', Str ''Portal''),
              (''deals'', Arr [Obj [(''storeID'', Str ''1''), (''price'', Str ''9.99'')]])])
       = Inl (NonNumericCheapestPrice None)"
  by code_simp

section \<open>Properties of the Equality Checker\<close>

lemma join_Cons: "join sep (x # xs) = x @ (if xs = [] then [] else sep @ join sep xs)"
  by (cases xs) simp_all

lemma stringify_start:
  "\<exists>l ls. stringify x = l # ls \<and> l \<noteq> Comma \<and> l \<noteq> Colon \<and> l \<noteq> RBrack \<and> l \<noteq> RBrace"
proof (cases x)
  case (Num n)
  then show ?thesis by (cases n) simp_all
qed simp_all

lemma join_inj:
  assumes elem: "\<And>x y r r'. x \<in> set xs \<Longrightarrow> P y \<Longrightarrow> f x @ r = f y @ r' \<Longrightarrow> x = y \<and> r = r'"
    and start: "\<And>y. \<exists>l ls. f y = l # ls \<and> l \<noteq> Comma \<and> l \<noteq> close"
    and ys: "\<forall>y \<in> set ys. P y"
    and close: "close \<noteq> Comma"
    and eq: "join [Comma] (map f xs) @ close # r = join [Comma] (map f ys) @ close # r'"
  shows "xs = ys \<and> r = r'"
  using elem ys eq
proof (induction xs arbitrary: ys)
  case Nil
  show ?case
  proof (cases ys)
    case Nil
    with Nil.prems show ?thesis by simp
  next
    case (Cons y ys')
    obtain l ls where "f y = l # ls" "l \<noteq> close" using start by blast
    with Nil.prems(3) Cons show ?thesis by (simp add: join_Cons)
  qed
next
  case (Cons x xs')
  show ?case
  proof (cases ys)
    case Nil
    obtain l ls where "f x = l # ls" "l \<noteq> close" using start by blast
    with Cons.prems(3) Nil show ?thesis by (simp add: join_Cons)
  next
    case c: (Cons y ys')
    let ?tx = "(if xs' = [] then [] else [Comma] @ join [Comma] (map f xs')) @ close # r"
    let ?ty = "(if ys' = [] then [] else [Comma] @ join [Comma] (map f ys')) @ close # r'"
    have "f x @ ?tx = f y @ ?ty"
      using Cons.prems(3) c by (simp add: join_Cons)
    moreover have "P y" using Cons.prems(2) c by simp
    ultimately have xy: "x = y" and t: "?tx = ?ty"
      using Cons.prems(1) [of x y ?tx ?ty] by simp_all
    have "xs' = ys' \<and> r = r'"
    proof (cases "xs' = []")
      case True
      with t close show ?thesis by (cases "ys' = []") auto
    next
      case False
      with t close have ne: "ys' \<noteq> []" by (cases "ys' = []") auto
      with t False have "join [Comma] (map f xs') @ close # r = join [Comma] (map f ys') @ close # r'"
        by simp
      moreover have "\<forall>y \<in> set ys'. P y" using Cons.prems(2) c by simp
      moreover have "\<And>x y r r'. x \<in> set xs' \<Longrightarrow> P y \<Longrightarrow> f x @ r = f y @ r' \<Longrightarrow> x = y \<and> r = r'"
        using Cons.prems(1) by (meson list.set_intros(2))
      ultimately show ?thesis
        using Cons.IH by blast
    qed
    with xy c show ?thesis by simp
  qed
qed

lemma stringify_inj_aux:
  "plain a \<Longrightarrow> plain b \<Longrightarrow> stringify a @ r = stringify b @ r' \<Longrightarrow> a = b \<and> r = r'"
proof (induction a arbitrary: b r r')
  case Null
  then show ?case by (cases b) (auto split: jsnum.splits if_splits)
next
  case (Bool x)
  then show ?case by (cases b) (auto split: jsnum.splits if_splits)
next
  case (Num n)
  then show ?case by (cases b) (auto split: jsnum.splits if_splits)
next
  case (Str s)
  then show ?case by (cases b) (auto split: jsnum.splits if_splits)
next
  case (Arr xs)
  from Arr.prems obtain ys where b: "b = Arr ys"
    by (cases b) (auto split: jsnum.splits if_splits)
  have "xs = ys \<and> r = r'"
  proof (rule join_inj [where f = stringify and P = plain and close = RBrack])
    show "\<And>x y r r'. x \<in> set xs \<Longrightarrow> plain y \<Longrightarrow> stringify x @ r = stringify y @ r' \<Longrightarrow> x = y \<and> r = r'"
      using Arr.IH Arr.prems(1) by auto
    show "\<And>y. \<exists>l ls. stringify y = l # ls \<and> l \<noteq> Comma \<and> l \<noteq> RBrack"
      using stringify_start by blast
    show "\<forall>y \<in> set ys. plain y" using Arr.prems(2) b by simp
    show "RBrack \<noteq> Comma" by simp
    show "join [Comma] (map stringify xs) @ RBrack # r = join [Comma] (map stringify ys) @ RBrack # r'"
      using Arr.prems(3) b by simp
  qed
  with b show ?case by simp
next
  case (Obj kvs)
  from Obj.prems obtain kvs' where b: "b = Obj kvs'"
    by (cases b) (auto split: jsnum.splits if_splits)
  let ?f = "\<lambda>(k, v). LStr k # Colon # stringify v"
  have "kvs = kvs' \<and> r = r'"
  proof (rule join_inj [where f = ?f and P = "\<lambda>(k, v). plain v" and close = RBrace])
    show "\<And>x y r r'. x \<in> set kvs \<Longrightarrow> (case y of (k, v) \<Rightarrow> plain v) \<Longrightarrow> ?f x @ r = ?f y @ r' \<Longrightarrow> x = y \<and> r = r'"
    proof -
      fix x y r r'
      assume x: "x \<in> set kvs" and y: "case y of (k, v) \<Rightarrow> plain v" and e: "?f x @ r = ?f y @ r'"
      obtain k v where xk: "x = (k, v)" by (cases x)
      obtain k' v' where yk: "y = (k', v')" by (cases y)
      from e xk yk have kk: "k = k'" and ee: "stringify v @ r = stringify v' @ r'" by simp_all
      have "plain v" using Obj.prems(1) x xk by auto
      moreover have "plain v'" using y yk by simp
      moreover have "v \<in> Basic_BNFs.snds x" using xk by simp
      ultimately have "v = v' \<and> r = r'" using Obj.IH [OF x _ _ _ ee] by blast
      with kk xk yk show "x = y \<and> r = r'" by simp
    qed
    show "\<And>y. \<exists>l ls. ?f y = l # ls \<and> l \<noteq> Comma \<and> l \<noteq> RBrace"
      by (auto split: prod.splits)
    show "\<forall>y \<in> set kvs'. case y of (k, v) \<Rightarrow> plain v" using Obj.prems(2) b by simp
    show "RBrace \<noteq> Comma" by simp
    show "join [Comma] (map ?f kvs) @ RBrace # r = join [Comma] (map ?f kvs') @ RBrace # r'"
      using Obj.prems(3) b by simp
  qed
  with b show ?case by simp
qed

lemma stringify_inj: "plain a \<Longrightarrow> plain b \<Longrightarrow> stringify a = stringify b \<Longrightarrow> a = b"
  using stringify_inj_aux [of a b "[]" "[]"] by simp

lemma JSON_stringify_inj:
  "plain_val a \<Longrightarrow> plain_val b \<Longrightarrow> JSON_stringify a = JSON_stringify b \<longleftrightarrow> a = b"
  by (cases a; cases b) (auto simp: JSON_stringify_def plain_val_def dest: stringify_inj)

text \<open>
  C3, as the code has it: the deals are compared through \<^verbatim>\<open>JSON.stringify\<close>, whole
  entries and not their \<^verbatim>\<open>{storeID, price}\<close>. For deals without non-finite numbers the
  checker returns true exactly when gameID, title, thumb and cheapestPrice are the same
  primitive value on both sides (not \<^verbatim>\<open>NaN\<close>, not an array or object) and the two deals
  values are the same JSON value: the same entries in the same order, each with the same
  properties in the same order. So two deals lists that differ, as a reordering does,
  give false, and a number is never rendered as a string is.
\<close>

theorem checkIfSameGame_iff:
  assumes "plain_val (deals e)" and "plain_val (deals n)"
  shows "(checkIfSameGame e n \<longleftrightarrow>
           gameID e = gameID n \<and> comparable (gameID e) \<and>
           title e = title n \<and> comparable (title e) \<and>
           thumb e = thumb n \<and> comparable (thumb e) \<and>
           cheapestPrice e = cheapestPrice n \<and> comparable (cheapestPrice e) \<and>
           deals e = deals n)
         \<and> (deals e = Some (Arr xs) \<and> deals n = Some (Arr ys) \<and> xs \<noteq> ys \<longrightarrow> \<not> checkIfSameGame e n)
         \<and> stringify (Num (Fin r)) \<noteq> stringify (Str s)"
proof -
  have iff: "checkIfSameGame e n \<longleftrightarrow>
           gameID e = gameID n \<and> comparable (gameID e) \<and>
           title e = title n \<and> comparable (title e) \<and>
           thumb e = thumb n \<and> comparable (thumb e) \<and>
           cheapestPrice e = cheapestPrice n \<and> comparable (cheapestPrice e) \<and>
           deals e = deals n"
    unfolding checkIfSameGame_def strict_eq_def JSON_stringify_inj [OF assms] by blast
  then show ?thesis by auto
qed

theorem checkIfSameGame_iff_witness:
  "checkIfSameGame
     \<lparr>gameID = Some (Str ''612''), title = Some (Str ''Portal''), thumb = None,
      cheapestPrice = Some (Str ''0.99''),
      deals = Some (Arr [Obj [(''storeID'', Str ''1''), (''price'', Str ''9.99'')],
                         Obj [(''storeID'', Str ''2''), (''price'', Num (Fin 5))]])\<rparr>
     \<lparr>gameID = Some (Str ''612''), title = Some (Str ''Portal''), thumb = None,
      cheapestPrice = Some (Str ''0.99''),
      deals = Some (Arr [Obj [(''storeID'', Str ''1''), (''price'', Str ''9.99'')],
                         Obj [(''storeID'', Str ''2''), (''price'', Num (Fin 5))]])\<rparr>
   \<and> \<not> checkIfSameGame
     \<lparr>gameID = Some (Str ''612''), title = Some (Str ''Portal''), thumb = None,
      cheapestPrice = Some (Str ''0.99''),
      deals = Some (Arr [Obj [(''storeID'', Str ''1''), (''price'', Str ''9.99'')],
                         Obj [(''storeID'', Str ''2''), (''price'', Num (Fin 5))]])\<rparr>
     \<lparr>gameID = Some (Str ''612''), title = Some (Str ''Portal''), thumb = None,
      cheapestPrice = Some (Str ''0.99''),
      deals = Some (Arr [Obj [(''storeID'', Str ''2''), (''price'', Num (Fin 5))],
                         Obj [(''storeID'', Str ''1''), (''price'', Str ''9.99'')]])\<rparr>"
proof -
  let ?d1 = "Some (Arr [Obj [(''storeID'', Str ''1''), (''price'', Str ''9.99'')],
                         Obj [(''storeID'', Str ''2''), (''price'', Num (Fin 5))]])"
  let ?d2 = "Some (Arr [Obj [(''storeID'', Str ''2''), (''price'', Num (Fin 5))],
                         Obj [(''storeID'', Str ''1''), (''price'', Str ''9.99'')]])"
  let ?e = "\<lparr>gameID = Some (Str ''612''), title = Some (Str ''Portal''), thumb = None,
      cheapestPrice = Some (Str ''0.99''), deals = ?d1\<rparr>"
  let ?n = "\<lparr>gameID = Some (Str ''612''), title = Some (Str ''Portal''), thumb = None,
      cheapestPrice = Some (Str ''0.99''), deals = ?d2\<rparr>"
  have p1: "plain_val (deals ?e)" and p2: "plain_val (deals ?n)"
    by (simp_all add: plain_val_def)
  have a: "checkIfSameGame ?e ?e"
    using checkIfSameGame_iff [OF p1 p1] by (simp add: comparable_def)
  have b: "\<not> checkIfSameGame ?e ?n"
    using checkIfSameGame_iff [OF p1 p2] by simp
  from a b show ?thesis by simp
qed

text \<open>
  C3 as it is written fails: the stored deal carries one more property, the two deals
  lists agree as sequences of \<^verbatim>\<open>{storeID, price}\<close> and all other fields agree, and the
  checker returns false.
\<close>

theorem checkIfSameGame_counterexample:
  "map normalized [Obj [(''storeID'', Str ''1''), (''price'', Str ''9.99''), (''dealID'', Str ''x'')]]
     = map normalized [Obj [(''storeID'', Str ''1''), (''price'', Str ''9.99'')]]
   \<and> \<not> checkIfSameGame
     \<lparr>gameID = Some (Str ''612''), title = Some (Str ''Portal''), thumb = Some (Str ''p.jpg''),
      cheapestPrice = Some (Str ''0.99''),
      deals = Some (Arr [Obj [(''storeID'', Str ''1''), (''price'', Str ''9.99''), (''dealID'', Str ''x'')]])\<rparr>
     \<lparr>gameID = Some (Str ''612''), title = Some (Str ''Portal''), thumb = Some (Str ''p.jpg''),
      cheapestPrice = Some (Str ''0.99''),
      deals = Some (Arr [Obj [(''storeID'', Str ''1''), (''price'', Str ''9.99'')]])\<rparr>"
  by (simp add: checkIfSameGame_def JSON_stringify_def normalized_def field_def)

section \<open>Properties of the Record Reconciler\<close>

text \<open>
  C10: on a store that is reachable, deleting all games succeeds with status 200 and
  reports the number of documents there were, 0 for an empty collection, and leaves the
  collection empty.
\<close>

theorem delete_games_count:
  assumes "connects d" and "answers d"
  shows "delete_games d = (Reply 200 (DeletedCount (length (docs d))), d\<lparr>docs := []\<rparr>)
         \<and> (docs d = [] \<longrightarrow> fst (delete_games d) = Reply 200 (DeletedCount 0))"
  using assms by (simp add: delete_games_def connectDB_def deleteMany_def)

theorem delete_games_count_witness:
  "delete_games \<lparr>connects = True, answers = True, docs = [],
      query_language = (\<lambda>q. Inl StorageFailure)\<rparr>
     = (Reply 200 (DeletedCount 0), \<lparr>connects = True, answers = True, docs = [],
      query_language = (\<lambda>q. Inl StorageFailure)\<rparr>)"
  using delete_games_count [of "\<lparr>connects = True, answers = True, docs = [],
      query_language = (\<lambda>q. Inl StorageFailure)\<rparr>"] by simp

lemma create_game_valid:
  assumes "valid_body body" and "answers d"
    and "\<not> has_operator (nz (field body ''gameID''))"
    and "\<not> has_operator (nz (field body ''title''))"
  shows "create_game d body =
           (if \<exists>kd \<in> set (docs d). conflict_match (game_of body) kd then Inl DuplicateGame
            else Inr (fresh (docs d), d\<lparr>docs := docs d @ [(fresh (docs d), bson (game_of body))]\<rparr>))"
proof -
  from assms(1) obtain ds where b: "body \<noteq> Null" and v1: "validateGameAttributes body = Inr ()"
    and v2: "validateDeals (field body ''deals'') = Inr ds"
    by (auto simp: valid_body_def split: sum.splits)
  have c: "conflicts d (game_of body) = Inr (conflict_match (game_of body))"
    using assms(3,4) by (simp add: conflicts_def game_of_def)
  show ?thesis
  proof (cases "find (conflict_match (game_of body)) (docs d)")
    case None
    then have "\<not> (\<exists>kd \<in> set (docs d). conflict_match (game_of body) kd)"
      by (auto simp: find_None_iff)
    with None b v1 v2 c assms(2) show ?thesis
      by (simp add: create_game_def findOne_def insertOne_def)
  next
    case (Some kd)
    then have "\<exists>kd \<in> set (docs d). conflict_match (game_of body) kd"
      by (auto simp: find_Some_iff)
    with Some b v1 v2 c assms(2) show ?thesis
      by (simp add: create_game_def findOne_def)
  qed
qed

lemma post_games_valid:
  assumes "connects d" and "answers d" and "valid_body body"
    and "\<not> has_operator (nz (field body ''gameID''))"
    and "\<not> has_operator (nz (field body ''title''))"
  shows "post_games d body =
           (if \<exists>kd \<in> set (docs d). conflict_match (game_of body) kd
              then (Reply 400 (ErrorOf DuplicateGame), d)
            else (Reply 201 (Added (fresh (docs d))),
                  d\<lparr>docs := docs d @ [(fresh (docs d), bson (game_of body))]\<rparr>))"
  using assms(1)
  by (simp add: post_games_def connectDB_def create_game_valid [OF assms(3,2,4,5)])





lemma validateDeals_Inr_Arr:
  "validateDeals v = Inr ds \<Longrightarrow> \<exists>xs. v = Some (Arr xs)"
  by (auto simp: validateDeals_def split: option.splits json.splits)

lemma create_game_Inr:
  assumes "create_game d body = Inr (k, d')"
  shows "d' = d\<lparr>docs := docs d @ [(k, bson (game_of body))]\<rparr>
         \<and> (\<exists>xs. field body ''deals'' = Some (Arr xs))"
  using assms
  by (auto simp: create_game_def findOne_def insertOne_def
      split: if_splits sum.splits option.splits dest: validateDeals_Inr_Arr)

text \<open>
  C9: when creation succeeds, the document inserted is built from the properties of the
  request body; its deals are the array of the body as it was submitted, whole entries
  with every property they carry, and not the list the Deal Validator returned.
\<close>

theorem post_games_stores_deals:
  assumes "post_games d body = (Reply 201 (Added k), d')"
  shows "docs d' = docs d @ [(k, bson (game_of body))]
         \<and> deals (bson (game_of body)) = field body ''deals''
         \<and> (\<exists>xs. field body ''deals'' = Some (Arr xs))"
proof -
  from assms have "create_game d body = Inr (k, d')"
    by (auto simp: post_games_def split: sum.splits)
  then have "d' = d\<lparr>docs := docs d @ [(k, bson (game_of body))]\<rparr>"
    and "\<exists>xs. field body ''deals'' = Some (Arr xs)"
    using create_game_Inr by blast+
  then show ?thesis
    by (auto simp: bson_def game_of_def nz_def)
qed

theorem post_games_stores_deals_witness:
  "map (\<lambda>kd. deals (snd kd))
     (docs (snd (post_games \<lparr>connects = True, answers = True, docs = [],
      query_language = (\<lambda>q. Inl StorageFailure)\<rparr>
         (Obj [(''title'', Str ''Portal''), (''cheapestPrice'', Str ''0.99''),
               (''deals'', Arr [Obj [(''storeID'', Str ''1''), (''price'', Str ''9.99''),
                                     (''dealID'', Str ''x'')]])]))))
   = [Some (Arr [Obj [(''storeID'', Str ''1''), (''price'', Str ''9.99''), (''dealID'', Str ''x'')]])]"
proof -
  let ?d = "\<lparr>connects = True, answers = True, docs = [],
      query_language = (\<lambda>q. Inl StorageFailure)\<rparr>"
  let ?b = "Obj [(''title'', Str ''Portal''), (''cheapestPrice'', Str ''0.99''),
               (''deals'', Arr [Obj [(''storeID'', Str ''1''), (''price'', Str ''9.99''),
                                     (''dealID'', Str ''x'')]])]"
  have v: "valid_body ?b" by code_simp
  have e: "post_games ?d ?b = (Reply 201 (Added (fresh (docs ?d))),
      ?d\<lparr>docs := docs ?d @ [(fresh (docs ?d), bson (game_of ?b))]\<rparr>)"
    using post_games_valid [of ?d ?b] v by (simp add: field_def nz_def)
  from post_games_stores_deals [OF e] e show ?thesis
    by (simp add: field_def)
qed




lemma set_first_same: "map_of ds k = Some g \<Longrightarrow> set_first k g ds = ds"
  by (induction ds) (auto split: if_splits)





section \<open>Properties of the External Fetch Adapter\<close>

text \<open>Once the store is connected, every failure is returned as a result.\<close>

lemma fetchAndStoreGame_caught:
  "connects d \<Longrightarrow> \<exists>r. fst (fetchAndStoreGame d api) = Inr r"
  by (auto simp: fetchAndStoreGame_def connectDB_def split: sum.splits prod.splits)

text \<open>
  C8 at a store that cannot be reached: \<^verbatim>\<open>connectDB\<close> throws before the \<^verbatim>\<open>try\<close> is
  entered, \<^verbatim>\<open>fetchAndStoreGame\<close> returns no result, and the route sends no response.
\<close>

theorem fetchAndStoreGame_propagates:
  "fetchAndStoreGame \<lparr>connects = False, answers = False, docs = [],
      query_language = (\<lambda>q. Inl StorageFailure)\<rparr>
     (Inr (Some (Obj [(''info'', Obj [(''gameID'', Str ''612''), (''title'', Str ''Portal''),
                                     (''thumb'', Str ''a.jpg'')]),
                      (''cheapestPriceEver'', Obj [(''price'', Str ''0.99'')]),
                      (''deals'', Arr [Obj [(''storeID'', Str ''1''), (''price'', Str ''9.99'')]])])))
     = (Inl StorageFailure, \<lparr>connects = False, answers = False, docs = [],
      query_language = (\<lambda>q. Inl StorageFailure)\<rparr>)
   \<and> fst (post_fetch_store \<lparr>connects = False, answers = False, docs = [],
      query_language = (\<lambda>q. Inl StorageFailure)\<rparr>
     (Inr (Some (Obj [(''info'', Obj [(''gameID'', Str ''612''), (''title'', Str ''Portal''),
                                     (''thumb'', Str ''a.jpg'')]),
                      (''cheapestPriceEver'', Obj [(''price'', Str ''0.99'')]),
                      (''deals'', Arr [Obj [(''storeID'', Str ''1''), (''price'', Str ''9.99'')]])]))))
     = Rejected StorageFailure"
  by (simp add: post_fetch_store_def fetchAndStoreGame_def connectDB_def)

end
